theory Spec2Isabelle
  imports Main "HOL-Library.Sublist" "HOL-Library.AList"
begin

section \<open>Strings\<close>

text \<open>
  A Python \<open>str\<close> is modelled as a \<open>string\<close> holding its UTF-8 encoding, so every
  ASCII character is one \<open>char\<close> and the non-ASCII literals of the source (the pound
  sign, the en dash, the pictographs of the prompt lines) are the byte
  sequences below. \<open>str.lower\<close>, \<open>str.strip\<close> and the regular expression class
  \<open>\d\<close> act on the ASCII range: a byte above 127 is kept by \<open>py_lower\<close>, is not white
  space and is not a digit. On ASCII text the functions below agree with Python.
\<close>

definition pound :: string where
  "pound = [CHR 0xC2, CHR 0xA3]"

definition en_dash :: string where
  "en_dash = [CHR 0xE2, CHR 0x80, CHR 0x93]"

definition pushpin :: string where
  "pushpin = [CHR 0xF0, CHR 0x9F, CHR 0x93, CHR 0x8C]"

definition pointing_hand :: string where
  "pointing_hand = [CHR 0xF0, CHR 0x9F, CHR 0x91, CHR 0x89]"

definition lower_char :: "char \<Rightarrow> char" where
  "lower_char c =
     (case map_of (zip ''ABCDEFGHIJKLMNOPQRSTUVWXYZ'' ''abcdefghijklmnopqrstuvwxyz'') c of
        None \<Rightarrow> c
      | Some l \<Rightarrow> l)"

definition py_lower :: "string \<Rightarrow> string" where
  "py_lower s = map lower_char s"

definition is_space :: "char \<Rightarrow> bool" where
  "is_space c =
     (let n = (of_char c :: nat)
      in (9 \<le> n \<and> n \<le> 13) \<or> (28 \<le> n \<and> n \<le> 32))"

definition py_strip :: "string \<Rightarrow> string" where
  "py_strip s = rev (dropWhile is_space (rev (dropWhile is_space s)))"

text \<open>\<open>sub in s\<close> on strings: \<open>sub\<close> occurs in \<open>s\<close> as a contiguous substring.\<close>

fun py_in :: "string \<Rightarrow> string \<Rightarrow> bool" where
  "py_in sub [] = (sub = [])"
| "py_in sub (c # cs) = (prefix sub (c # cs) \<or> py_in sub cs)"

section \<open>Errors\<close>

datatype error = TypeError | AttributeError | KeyError

section \<open>Grounding verifier (utils/safety.py)\<close>

text \<open>
  A listing as the verifier reads it: \<open>h["payload"]["external_id"]\<close> and
  \<open>h["payload"]["address"]\<close>, both strings, which the docstring of
  \<open>is_reply_grounded\<close> requires every item to carry.
\<close>

record fact =
  external_id :: string
  address :: string

definition listing_keywords :: "string list" where
  "listing_keywords = [''listing'', ''property'', ''address'', ''option'', ''match'']"

definition mentions_known_items :: "string \<Rightarrow> fact list \<Rightarrow> bool" where
  "mentions_known_items reply_lower similar_items =
     (list_ex (\<lambda>addr. py_in addr reply_lower) (map (\<lambda>h. py_lower (address h)) similar_items)
      \<or> list_ex (\<lambda>ext_id. py_in ext_id reply_lower)
           (map (\<lambda>h. py_lower (external_id h)) similar_items))"

definition mentions_possible_listing :: "string \<Rightarrow> bool" where
  "mentions_possible_listing reply_lower =
     list_ex (\<lambda>keyword. py_in keyword reply_lower) listing_keywords"

definition is_reply_grounded :: "string \<Rightarrow> fact list \<Rightarrow> bool \<Rightarrow> bool" where
  "is_reply_grounded reply_text similar_items must_match =
     (if similar_items = [] then True
      else
        let reply_lower = py_lower reply_text
        in if py_in ''would a'' reply_lower \<and> py_in ''also work for you'' reply_lower
           then True
           else if mentions_known_items reply_lower similar_items then True
           else if mentions_possible_listing reply_lower then \<not> must_match
           else True)"

text \<open>
  The call of the turn orchestrator (main.py): \<open>must_match\<close> is left at its default
  \<open>False\<close>, and a rejected reply is replaced by the fixed fallback text.
\<close>

definition fallback_reply :: string where
  "fallback_reply =
     ''I'' @ [CHR 0xE2, CHR 0x80, CHR 0x99] @ ''m sorry '' @ [CHR 0xE2, CHR 0x80, CHR 0x94]
     @ '' I wasn'' @ [CHR 0xE2, CHR 0x80, CHR 0x99]
     @ ''t able to find any additional listings that match your request. ''
     @ ''Would you like to adjust your preferences?''"

definition checked_reply :: "string \<Rightarrow> fact list \<Rightarrow> string" where
  "checked_reply reply similar_items =
     (if \<not> is_reply_grounded reply similar_items False then fallback_reply else reply)"

section \<open>Values of the extraction output\<close>

text \<open>
  What \<open>json.loads\<close> yields for the extractor's output and what the metadata dictionaries
  hold: \<open>None\<close>, booleans, integers, strings, lists and dictionaries. Floating point
  numbers are left out.

  A dictionary is an association list in insertion order, read with \<open>map_of\<close> and
  written with \<open>AList.update\<close>; a loop over \<open>d.items()\<close> runs over \<open>dict_items d\<close>,
  one entry for each key.
\<close>

datatype json =
    JNull
  | JBool bool
  | JNum int
  | JStr string
  | JList "json list"
  | JObj "(string \<times> json) list"

definition dict_items :: "('k \<times> 'v) list \<Rightarrow> ('k \<times> 'v) list" where
  "dict_items d = AList.clearjunk d"

text \<open>Python's truth value of an object, as \<open>if value\<close> and \<open>not value\<close> test it.\<close>

fun truthy :: "json \<Rightarrow> bool" where
  "truthy JNull = False"
| "truthy (JBool b) = b"
| "truthy (JNum n) = (n \<noteq> 0)"
| "truthy (JStr s) = (s \<noteq> [])"
| "truthy (JList xs) = (xs \<noteq> [])"
| "truthy (JObj kvs) = (kvs \<noteq> [])"

definition is_digit :: "char \<Rightarrow> bool" where
  "is_digit c = (c \<in> set ''0123456789'')"

definition digit_value :: "char \<Rightarrow> int" where
  "digit_value c = (of_char c :: int) - 48"

definition digit_char :: "int \<Rightarrow> char" where
  "digit_char d = ''0123456789'' ! nat d"

text \<open>\<open>int(s)\<close> on a string of decimal digits.\<close>

definition int_of_digits :: "string \<Rightarrow> int" where
  "int_of_digits s = foldl (\<lambda>acc c. 10 * acc + digit_value c) 0 s"

text \<open>\<open>str(n)\<close> on an integer that is not negative.\<close>

function str_of_nat :: "int \<Rightarrow> string" where
  "str_of_nat n =
     (if n < 10 then [digit_char n] else str_of_nat (n div 10) @ [digit_char (n mod 10)])"
  by pat_completeness auto
termination
  by (relation "measure nat") auto

declare str_of_nat.simps [simp del]

definition str_of_int :: "int \<Rightarrow> string" where
  "str_of_int i = (if i < 0 then CHR ''-'' # str_of_nat (- i) else str_of_nat i)"

text \<open>
  The format specification \<open>{n:,}\<close> on an integer that is not negative: its decimal
  digits with a comma before every group of three, counted from the right.
\<close>

fun group_thousands :: "string \<Rightarrow> string" where
  "group_thousands (a # b # c # d # rest) = a # b # c # CHR '','' # group_thousands (d # rest)"
| "group_thousands ds = ds"

definition format_thousands :: "int \<Rightarrow> string" where
  "format_thousands n = rev (group_thousands (rev (str_of_nat n)))"

text \<open>\<open>sep.join(parts)\<close>\<close>

fun py_join :: "string \<Rightarrow> string list \<Rightarrow> string" where
  "py_join sep [] = []"
| "py_join sep [p] = p"
| "py_join sep (p # q # ps) = p @ sep @ py_join sep (q # ps)"

text \<open>
  \<open>repr\<close> of a string: double quotes when the string holds a single quote and no double
  quote, single quotes otherwise; the backslash, the chosen quote, tab, newline and
  carriage return are escaped with a backslash, the other ASCII control characters are
  written \<open>\xhh\<close>.
\<close>

definition hex_digit :: "nat \<Rightarrow> char" where
  "hex_digit d = ''0123456789abcdef'' ! d"

definition repr_char :: "char \<Rightarrow> char \<Rightarrow> string" where
  "repr_char quote c =
     (let n = (of_char c :: nat)
      in if c = CHR 0x5C then [CHR 0x5C, CHR 0x5C]
         else if c = quote then [CHR 0x5C, quote]
         else if n = 9 then [CHR 0x5C, CHR ''t'']
         else if n = 10 then [CHR 0x5C, CHR ''n'']
         else if n = 13 then [CHR 0x5C, CHR ''r'']
         else if n < 32 \<or> n = 127 then
           [CHR 0x5C, CHR ''x'', hex_digit (n div 16), hex_digit (n mod 16)]
         else [c])"

definition repr_str :: "string \<Rightarrow> string" where
  "repr_str s =
     (let quote = (if CHR 0x27 \<in> set s \<and> CHR 0x22 \<notin> set s then CHR 0x22 else CHR 0x27)
      in [quote] @ concat (map (repr_char quote) s) @ [quote])"

fun py_repr :: "json \<Rightarrow> string" where
  "py_repr JNull = ''None''"
| "py_repr (JBool b) = (if b then ''True'' else ''False'')"
| "py_repr (JNum n) = str_of_int n"
| "py_repr (JStr s) = repr_str s"
| "py_repr (JList xs) = ''['' @ py_join '', '' (map py_repr xs) @ '']''"
| "py_repr (JObj kvs) =
     ''{'' @ py_join '', '' (map (\<lambda>(k, v). repr_str k @ '': '' @ py_repr v) kvs) @ ''}''"

text \<open>\<open>str(value)\<close>: a string is itself, every other value prints as its \<open>repr\<close>.\<close>

definition py_str :: "json \<Rightarrow> string" where
  "py_str v = (case v of JStr s \<Rightarrow> s | _ \<Rightarrow> py_repr v)"

text \<open>
  \<open>re.findall(r"\d{3,}", s)\<close>: the scan keeps the run of digits read so far in \<open>run\<close>;
  a run that ends is a match when it has at least three digits.
\<close>

fun findall_3digits :: "string \<Rightarrow> string \<Rightarrow> string list" where
  "findall_3digits run [] = (if 3 \<le> length run then [run] else [])"
| "findall_3digits run (c # cs) =
     (if is_digit c then findall_3digits (run @ [c]) cs
      else (if 3 \<le> length run then [run] else []) @ findall_3digits [] cs)"

text \<open>\<open>s.split(",")\<close>\<close>

fun split_commas :: "string \<Rightarrow> string list" where
  "split_commas [] = [[]]"
| "split_commas (c # cs) =
     (if c = CHR '','' then [] # split_commas cs
      else (case split_commas cs of
              [] \<Rightarrow> [[c]]
            | part # parts \<Rightarrow> (c # part) # parts))"

text \<open>\<open>s.replace(",", "")\<close>\<close>

definition remove_commas :: "string \<Rightarrow> string" where
  "remove_commas s = filter (\<lambda>c. c \<noteq> CHR '','') s"

section \<open>Sanitizers (services/validate\_metadata.py)\<close>

text \<open>
  The body of the \<open>try\<close> of \<open>sanitize_range_number\<close> raises nothing in this model
  (\<open>int\<close> of a digit string and the formatting always succeed; the limit that the
  interpreter may set on the number of digits converted is not modelled), so the handler
  is not a branch of the definition.
\<close>

definition sanitize_range_number :: "json \<Rightarrow> string option" where
  "sanitize_range_number v =
     (if \<not> truthy v then None
      else
        let str_val = remove_commas (py_str v);
            match = findall_3digits [] str_val
        in if length match = 2 then
             Some (pound @ format_thousands (int_of_digits (match ! 0)) @ en_dash
                   @ pound @ format_thousands (int_of_digits (match ! 1)))
           else if length match = 1 then
             Some (pound @ format_thousands (int_of_digits (match ! 0)))
           else None)"

definition sanitize_list :: "json \<Rightarrow> string list" where
  "sanitize_list v =
     (case v of
        JStr s \<Rightarrow> map py_strip (split_commas s)
      | JList xs \<Rightarrow> map (\<lambda>x. py_strip (py_str x)) (filter truthy xs)
      | _ \<Rightarrow> [])"

text \<open>
  \<open>value[0].strip()\<close> raises AttributeError when the first element is not a string.
\<close>

definition sanitize_type :: "json \<Rightarrow> error + string option" where
  "sanitize_type v =
     (case v of
        JList (x # xs) \<Rightarrow>
          (case x of
             JStr s \<Rightarrow> Inr (Some (py_lower (py_strip s)))
           | _ \<Rightarrow> Inl AttributeError)
      | JStr s \<Rightarrow> Inr (Some (py_lower (py_strip s)))
      | _ \<Rightarrow> Inr None)"

definition normalize_choice :: "json \<Rightarrow> string list \<Rightarrow> string option" where
  "normalize_choice v valid_choices =
     (case v of
        JStr s \<Rightarrow> find (\<lambda>choice. py_lower (py_strip s) = py_lower choice) valid_choices
      | _ \<Rightarrow> None)"

definition sanitize_string :: "json \<Rightarrow> string option" where
  "sanitize_string v = (case v of JStr s \<Rightarrow> Some (py_strip s) | _ \<Rightarrow> None)"

text \<open>An \<open>Optional[str]\<close> and a list of strings as values of a metadata dictionary.\<close>

definition of_optional :: "string option \<Rightarrow> json" where
  "of_optional r = (case r of None \<Rightarrow> JNull | Some s \<Rightarrow> JStr s)"

definition of_strings :: "string list \<Rightarrow> json" where
  "of_strings xs = JList (map JStr xs)"

text \<open>The registry of sanitizer functions by field type.\<close>

definition FIELD_SANITIZERS :: "string \<Rightarrow> (json \<Rightarrow> error + json) option" where
  "FIELD_SANITIZERS field_type =
     (if field_type = ''range_number'' then
        Some (\<lambda>v. Inr (of_optional (sanitize_range_number v)))
      else if field_type = ''list'' then Some (\<lambda>v. Inr (of_strings (sanitize_list v)))
      else if field_type = ''type'' then Some (\<lambda>v. map_sum id of_optional (sanitize_type v))
      else if field_type = ''string'' then Some (\<lambda>v. Inr (of_optional (sanitize_string v)))
      else None)"

section \<open>Field schema\<close>

text \<open>
  The schema document \<open>fields.json\<close> as the code reads it. A field's configuration may
  carry a \<open>type\<close>, a list of \<open>choices\<close> and a \<open>weights\<close> dictionary, whose values are
  numbers (the weight of an option) or sequences of numbers (\<open>thresholds\<close>, \<open>scores\<close>).
  A \<open>metadata_fields\<close> or \<open>context_labels\<close> entry that is missing reads as the empty
  dictionary.
\<close>

datatype weight = WNum int | WSeq "int list"

record field_config =
  ftype :: "string option"
  choices :: "string list option"
  weights :: "(string \<times> weight) list option"

record field_schema =
  metadata_fields :: "(string \<times> field_config) list"
  lead_score_thresholds :: "(string \<times> int) list option"
  context_labels :: "(string \<times> string) list"

section \<open>validate\_metadata (services/validate\_metadata.py)\<close>

text \<open>\<open>d.get(key)\<close> on a dictionary of values: \<open>None\<close> when the key is missing.\<close>

definition get_or_null :: "(string \<times> json) list \<Rightarrow> string \<Rightarrow> json" where
  "get_or_null d key = (case map_of d key of None \<Rightarrow> JNull | Some v \<Rightarrow> v)"

text \<open>The body of the loop over the schema's fields: the value stored for one field.\<close>

definition sanitize_field :: "field_config \<Rightarrow> json \<Rightarrow> error + json" where
  "sanitize_field config v =
     (let field_type = (case ftype config of None \<Rightarrow> ''string'' | Some t \<Rightarrow> t)
      in case choices config of
           Some valid_choices \<Rightarrow> Inr (of_optional (normalize_choice v valid_choices))
         | None \<Rightarrow>
             (case FIELD_SANITIZERS field_type of
                Some sanitizer \<Rightarrow> sanitizer v
              | None \<Rightarrow> Inr v))"

fun validate_fields ::
  "(string \<times> json) list \<Rightarrow> (string \<times> field_config) list \<Rightarrow> (string \<times> json) list
   \<Rightarrow> error + (string \<times> json) list" where
  "validate_fields raw [] metadata = Inr metadata"
| "validate_fields raw ((field, config) # rest) metadata =
     (case sanitize_field config (get_or_null raw field) of
        Inl e \<Rightarrow> Inl e
      | Inr v \<Rightarrow> validate_fields raw rest (AList.update field v metadata))"

definition validate_metadata ::
  "field_schema \<Rightarrow> (string \<times> json) list \<Rightarrow> error + (string \<times> json) list" where
  "validate_metadata schema raw =
     validate_fields raw (dict_items (metadata_fields schema))
       [(''session_id'', get_or_null raw ''session_id'')]"

section \<open>Profiles\<close>

text \<open>
  A value of the sanitized metadata and of the profile: \<open>None\<close>, a string or a list of
  strings.
\<close>

datatype mvalue = MNone | MStr string | MList "string list"

type_synonym metadata = "(string \<times> mvalue) list"

text \<open>\<open>d.get(key)\<close>: \<open>None\<close> when the key is missing.\<close>

definition get_value :: "metadata \<Rightarrow> string \<Rightarrow> mvalue" where
  "get_value d key = (case map_of d key of None \<Rightarrow> MNone | Some v \<Rightarrow> v)"

fun truthy_value :: "mvalue \<Rightarrow> bool" where
  "truthy_value MNone = False"
| "truthy_value (MStr s) = (s \<noteq> [])"
| "truthy_value (MList xs) = (xs \<noteq> [])"

fun json_of :: "mvalue \<Rightarrow> json" where
  "json_of MNone = JNull"
| "json_of (MStr s) = JStr s"
| "json_of (MList xs) = JList (map JStr xs)"

section \<open>classify\_lead (services/validate\_metadata.py)\<close>

text \<open>
  The loop over \<open>zip(weights["thresholds"], weights["scores"])\<close>: every threshold that
  \<open>max_val\<close> reaches adds its score.
\<close>

fun add_threshold_scores :: "int \<Rightarrow> (int \<times> int) list \<Rightarrow> int \<Rightarrow> int" where
  "add_threshold_scores max_val [] score = score"
| "add_threshold_scores max_val ((threshold, s) # rest) score =
     add_threshold_scores max_val rest (if max_val \<ge> threshold then score + s else score)"

text \<open>
  The loop over \<open>weights.items()\<close> of the categorical branch: the first option equal to
  the value adds its weight and ends the loop. Adding a weight that is a sequence to the
  score raises TypeError.
\<close>

fun add_option_weight :: "string \<Rightarrow> (string \<times> weight) list \<Rightarrow> int \<Rightarrow> error + int" where
  "add_option_weight v [] score = Inr score"
| "add_option_weight v ((option, w) # rest) score =
     (if v = py_lower (py_strip option) then
        (case w of WNum n \<Rightarrow> Inr (score + n) | WSeq ns \<Rightarrow> Inl TypeError)
      else add_option_weight v rest score)"

text \<open>
  The body of the loop over the schema's fields, from the score before the field to the
  score after it. In the threshold branch a missing \<open>scores\<close> entry (KeyError) or an entry
  that is not a sequence (TypeError of \<open>zip\<close>) is caught before any score is added, and
  the loop continues.
\<close>

definition score_field :: "mvalue \<Rightarrow> field_config \<Rightarrow> int \<Rightarrow> error + int" where
  "score_field value field_config score =
     (if \<not> truthy_value value then Inr score
      else
        case weights field_config of
          None \<Rightarrow> Inr score
        | Some ws \<Rightarrow>
            let str_value = py_str (json_of value)
            in if ftype field_config = Some ''range_number'' \<and> map_of ws ''thresholds'' \<noteq> None
               then
                 (let match = findall_3digits [] (remove_commas str_value)
                  in if match \<noteq> [] then
                       (let max_val = int_of_digits (last match)
                        in case (map_of ws ''thresholds'', map_of ws ''scores'') of
                             (Some (WSeq thresholds), Some (WSeq scores)) \<Rightarrow>
                               Inr (add_threshold_scores max_val (zip thresholds scores) score)
                           | _ \<Rightarrow> Inr score)
                     else Inr score)
               else add_option_weight (py_lower (py_strip str_value)) (dict_items ws) score)"

fun score_fields ::
  "(string \<times> field_config) list \<Rightarrow> metadata \<Rightarrow> int \<Rightarrow> error + int" where
  "score_fields [] metadata score = Inr score"
| "score_fields ((key, field_config) # rest) metadata score =
     (case score_field (get_value metadata key) field_config score of
        Inl e \<Rightarrow> Inl e
      | Inr score' \<Rightarrow> score_fields rest metadata score')"

definition cutoff :: "field_schema \<Rightarrow> string \<Rightarrow> int \<Rightarrow> int" where
  "cutoff schema tier dflt =
     (case lead_score_thresholds schema of
        None \<Rightarrow> dflt
      | Some thresholds \<Rightarrow> (case map_of thresholds tier of None \<Rightarrow> dflt | Some c \<Rightarrow> c))"

definition classify_lead :: "metadata \<Rightarrow> field_schema \<Rightarrow> error + string" where
  "classify_lead metadata schema =
     (case score_fields (dict_items (metadata_fields schema)) metadata 0 of
        Inl e \<Rightarrow> Inl e
      | Inr score \<Rightarrow>
          Inr (if score \<ge> cutoff schema ''Hot'' 3 then ''Hot''
               else if score \<ge> cutoff schema ''Warm'' 1 then ''Warm''
               else ''Cold''))"

text \<open>
  The scoring rule in the words of the specification, for comparison: of the thresholds
  that the value reaches, the highest one alone gives its score, a later entry winning a
  tie.
\<close>

fun highest_qualifying ::
  "int \<Rightarrow> (int \<times> int) list \<Rightarrow> (int \<times> int) option \<Rightarrow> (int \<times> int) option" where
  "highest_qualifying max_val [] best = best"
| "highest_qualifying max_val ((threshold, s) # rest) best =
     highest_qualifying max_val rest
       (if threshold \<le> max_val \<and> (case best of None \<Rightarrow> True | Some (t, _) \<Rightarrow> t \<le> threshold)
        then Some (threshold, s) else best)"

definition spec_highest_threshold_score :: "int \<Rightarrow> int list \<Rightarrow> int list \<Rightarrow> int" where
  "spec_highest_threshold_score max_val thresholds scores =
     (case highest_qualifying max_val (zip thresholds scores) None of
        None \<Rightarrow> 0
      | Some (_, s) \<Rightarrow> s)"

section \<open>Profile store (services/session\_metadata.py)\<close>

text \<open>
  An item of the DynamoDB table, in attribute format: a string (\<open>S\<close>) or a string set
  (\<open>SS\<close>) for each key. The table is modelled by the latest item put for the user,
  \<open>None\<close> before the first put; \<open>load_metadata\<close> reads that item. No other writer
  comes between the reads and the put of one call.
\<close>

datatype attribute = S string | SS "string list"

type_synonym item = "(string \<times> attribute) list"

fun load_attributes :: "item \<Rightarrow> metadata \<Rightarrow> metadata" where
  "load_attributes [] result = result"
| "load_attributes ((key, a) # rest) result =
     (if key = ''user_id'' \<or> key = ''timestamp'' then load_attributes rest result
      else case a of
             S s \<Rightarrow> load_attributes rest (AList.update key (MStr s) result)
           | SS xs \<Rightarrow> load_attributes rest (AList.update key (MList xs) result))"

definition load_metadata :: "item option \<Rightarrow> metadata" where
  "load_metadata store =
     (case store of None \<Rightarrow> [] | Some item \<Rightarrow> load_attributes (dict_items item) [])"

text \<open>
  \<open>d.get(key, []) + value\<close> for a list \<open>value\<close>: the list stored under the key, the empty
  list when the key is missing; the concatenation raises TypeError when the stored value
  is not a list.
\<close>

definition get_list :: "metadata \<Rightarrow> string \<Rightarrow> error + string list" where
  "get_list d key =
     (case map_of d key of
        None \<Rightarrow> Inr []
      | Some (MList old) \<Rightarrow> Inr old
      | Some _ \<Rightarrow> Inl TypeError)"

text \<open>
  \<open>list(set(xs))\<close>: the elements of \<open>xs\<close>, each once. Python fixes no order; the model
  takes the order of \<open>remdups\<close>.
\<close>

definition list_of_set :: "string list \<Rightarrow> string list" where
  "list_of_set xs = remdups xs"

text \<open>The merge loop of \<open>update_and_save_metadata\<close> over the items of the new metadata.\<close>

fun merge_new :: "metadata \<Rightarrow> metadata \<Rightarrow> error + metadata" where
  "merge_new [] merged = Inr merged"
| "merge_new ((key, v) # rest) merged =
     (case v of
        MNone \<Rightarrow> merge_new rest merged
      | MList xs \<Rightarrow>
          (case get_list merged key of
             Inl e \<Rightarrow> Inl e
           | Inr old \<Rightarrow> merge_new rest (AList.update key (MList (list_of_set (old @ xs))) merged))
      | MStr s \<Rightarrow> merge_new rest (AList.update key (MStr s) merged))"

text \<open>The merge loop of \<open>save_metadata\<close>, which reads the lists of \<open>existing\<close>.\<close>

fun merge_existing :: "metadata \<Rightarrow> metadata \<Rightarrow> metadata \<Rightarrow> error + metadata" where
  "merge_existing [] existing merged = Inr merged"
| "merge_existing ((key, v) # rest) existing merged =
     (case v of
        MNone \<Rightarrow> merge_existing rest existing merged
      | MStr s \<Rightarrow>
          (if py_strip s = [] then merge_existing rest existing merged
           else merge_existing rest existing (AList.update key (MStr s) merged))
      | MList xs \<Rightarrow>
          (case get_list existing key of
             Inl e \<Rightarrow> Inl e
           | Inr old \<Rightarrow>
               merge_existing rest existing
                 (AList.update key (MList (list_of_set (old @ xs))) merged)))"

text \<open>The loop that fills the item: non-empty lists and non-blank strings only.\<close>

fun put_attributes :: "metadata \<Rightarrow> item \<Rightarrow> item" where
  "put_attributes [] item = item"
| "put_attributes ((key, v) # rest) item =
     (case v of
        MList xs \<Rightarrow>
          (if xs \<noteq> [] then put_attributes rest (AList.update key (SS xs) item)
           else put_attributes rest item)
      | MStr s \<Rightarrow>
          (if py_strip s \<noteq> [] then put_attributes rest (AList.update key (S (py_strip s)) item)
           else put_attributes rest item)
      | MNone \<Rightarrow> put_attributes rest item)"

text \<open>
  \<open>save_metadata\<close> returns the item that it puts; \<open>now\<close> is the time stamp that
  \<open>utc_now()\<close> gives.
\<close>

definition save_metadata ::
  "string \<Rightarrow> string \<Rightarrow> item option \<Rightarrow> metadata \<Rightarrow> error + item" where
  "save_metadata user_id now store new_metadata =
     (let existing = load_metadata store
      in case merge_existing (dict_items new_metadata) existing existing of
           Inl e \<Rightarrow> Inl e
         | Inr merged \<Rightarrow>
             Inr (put_attributes (dict_items merged)
                    [(''user_id'', S user_id), (''timestamp'', S now)]))"

text \<open>
  \<open>update_and_save_metadata\<close> from the merge on: \<open>new_metadata\<close> is the result of
  \<open>validate_metadata\<close>, with the values of the sanitized data model.
\<close>

definition update_and_save_metadata ::
  "string \<Rightarrow> string \<Rightarrow> field_schema \<Rightarrow> item option \<Rightarrow> metadata \<Rightarrow> error + item" where
  "update_and_save_metadata user_id now schema store new_metadata =
     (let existing_metadata = load_metadata store
      in case merge_new (dict_items new_metadata) existing_metadata of
           Inl e \<Rightarrow> Inl e
         | Inr merged \<Rightarrow>
             (case classify_lead merged schema of
                Inl e \<Rightarrow> Inl e
              | Inr tier \<Rightarrow>
                  save_metadata user_id now store
                    (AList.update ''lead_classification'' (MStr tier) merged)))"

text \<open>The table after the call: a call that raises puts nothing.\<close>

definition store_after ::
  "string \<Rightarrow> string \<Rightarrow> field_schema \<Rightarrow> item option \<Rightarrow> metadata \<Rightarrow> item option" where
  "store_after user_id now schema store new_metadata =
     (case update_and_save_metadata user_id now schema store new_metadata of
        Inl e \<Rightarrow> store
      | Inr item \<Rightarrow> Some item)"


text \<open>Two values are the same when they are equal, lists being compared as sets.\<close>

fun same_value :: "mvalue option \<Rightarrow> mvalue option \<Rightarrow> bool" where
  "same_value (Some (MList xs)) (Some (MList ys)) = (set xs = set ys)"
| "same_value v w = (v = w)"

definition same_profile :: "metadata \<Rightarrow> metadata \<Rightarrow> bool" where
  "same_profile p q =
     list_all (\<lambda>key. same_value (map_of p key) (map_of q key)) (map fst p @ map fst q)"

text \<open>
  A profile as the table holds it: strings are stripped and not empty, string sets are
  not empty and hold each element once.
\<close>

fun stored_value :: "mvalue \<Rightarrow> bool" where
  "stored_value MNone = False"
| "stored_value (MStr s) = (s \<noteq> [] \<and> py_strip s = s)"
| "stored_value (MList xs) = (xs \<noteq> [] \<and> distinct xs)"

definition stored_profile :: "metadata \<Rightarrow> bool" where
  "stored_profile p = list_all (\<lambda>key. stored_value (get_value p key)) (map fst p)"

section \<open>The merge, key by key\<close>

text \<open>
  What the loops above leave under one key, as functions of the values found under that
  key; the lemmas on the loops relate them to the loops.
\<close>

fun list_or_nil :: "mvalue option \<Rightarrow> string list" where
  "list_or_nil (Some (MList xs)) = xs"
| "list_or_nil v = []"

fun merged_new_value :: "mvalue option \<Rightarrow> mvalue option \<Rightarrow> mvalue option" where
  "merged_new_value (Some (MStr s)) old = Some (MStr s)"
| "merged_new_value (Some (MList xs)) old = Some (MList (list_of_set (list_or_nil old @ xs)))"
| "merged_new_value incoming old = old"

fun merged_existing_value ::
  "mvalue option \<Rightarrow> mvalue option \<Rightarrow> mvalue option \<Rightarrow> mvalue option" where
  "merged_existing_value (Some (MStr s)) existing old =
     (if py_strip s = [] then old else Some (MStr s))"
| "merged_existing_value (Some (MList xs)) existing old =
     Some (MList (list_of_set (list_or_nil existing @ xs)))"
| "merged_existing_value incoming existing old = old"

fun attribute_of :: "mvalue \<Rightarrow> attribute option" where
  "attribute_of (MList xs) = (if xs \<noteq> [] then Some (SS xs) else None)"
| "attribute_of (MStr s) = (if py_strip s \<noteq> [] then Some (S (py_strip s)) else None)"
| "attribute_of MNone = None"

fun value_of :: "attribute \<Rightarrow> mvalue" where
  "value_of (S s) = MStr s"
| "value_of (SS xs) = MList xs"

definition persisted_value :: "mvalue option \<Rightarrow> mvalue option" where
  "persisted_value v =
     (case v of None \<Rightarrow> None | Some w \<Rightarrow> map_option value_of (attribute_of w))"

text \<open>
  The profile that a successful call leaves in the table, key by key, from the profile
  before the call, the new metadata and the tier that the classifier returned.
\<close>

definition persisted_lookup ::
  "metadata \<Rightarrow> metadata \<Rightarrow> string \<Rightarrow> string \<Rightarrow> mvalue option" where
  "persisted_lookup p new_metadata tier k =
     (if k = ''user_id'' \<or> k = ''timestamp'' then None
      else persisted_value
             (merged_existing_value
                (if k = ''lead_classification'' then Some (MStr tier)
                 else merged_new_value (map_of new_metadata k) (map_of p k))
                (map_of p k) (map_of p k)))"

text \<open>An incoming value that is null or empty.\<close>

fun null_or_empty :: "mvalue option \<Rightarrow> bool" where
  "null_or_empty None = True"
| "null_or_empty (Some MNone) = True"
| "null_or_empty (Some (MStr s)) = (py_strip s = [])"
| "null_or_empty (Some (MList xs)) = (xs = [])"

section \<open>Context assembly (services/content\_manager\_or.py, services/prompt\_helpers.py)\<close>

record message =
  role :: string
  content :: string

text \<open>
  An entry of the stored transcript, as \<open>load_history\<close> returns it: the \<open>S\<close> attributes
  \<open>role\<close> and \<open>message\<close> that \<open>save_message\<close> writes.
\<close>

record history_item =
  item_role :: string
  item_message :: string

text \<open>
  What the assembly takes from outside the repository: the rendered system prompt, the
  \<open>context_labels\<close> of the field schema, \<open>json.loads\<close> (\<open>None\<close> for a JSONDecodeError;
  a number with a fraction decodes to some value that is not a dictionary) and the
  substitution \<open>re.sub\<close> that deletes a trailing block starting with \<open>{"session_id"\<close>.
\<close>

record prompt_env =
  system_prompt :: string
  label_mapping :: "(string \<times> string) list"
  json_loads :: "string \<Rightarrow> json option"
  strip_session_block :: "string \<Rightarrow> string"

definition newline :: string where
  "newline = [CHR 0x0A]"

text \<open>
  The content of one history entry. \<open>message_data.get\<close> raises AttributeError when the
  decoded message is not a dictionary, and \<open>re.sub\<close> raises TypeError when the \<open>reply\<close>
  entry is not a string; only the JSONDecodeError is caught.
\<close>

definition history_content :: "prompt_env \<Rightarrow> string \<Rightarrow> error + string" where
  "history_content env raw_message =
     (case (case json_loads env raw_message of
              None \<Rightarrow> Inr (JStr raw_message)
            | Some (JObj message_data) \<Rightarrow>
                Inr (case map_of message_data ''reply'' of
                       None \<Rightarrow> JStr raw_message
                     | Some reply \<Rightarrow> reply)
            | Some _ \<Rightarrow> Inl AttributeError) of
        Inl e \<Rightarrow> Inl e
      | Inr (JStr text_content) \<Rightarrow>
          Inr (strip_session_block env (strip_session_block env text_content))
      | Inr _ \<Rightarrow> Inl TypeError)"

fun format_history_or :: "prompt_env \<Rightarrow> history_item list \<Rightarrow> error + message list" where
  "format_history_or env [] = Inr []"
| "format_history_or env (item # rest) =
     (case history_content env (item_message item) of
        Inl e \<Rightarrow> Inl e
      | Inr text_content \<Rightarrow>
          (case format_history_or env rest of
             Inl e \<Rightarrow> Inl e
           | Inr messages \<Rightarrow>
               Inr (if item_role item \<in> set [''user'', ''assistant'', ''system'']
                    then \<lparr>role = item_role item, content = text_content\<rparr> # messages
                    else messages)))"

text \<open>The lines of \<open>format_metadata_context_prompt\<close>, one for each label with a value.\<close>

fun preference_lines :: "(string \<times> string) list \<Rightarrow> metadata \<Rightarrow> string list" where
  "preference_lines [] metadata = []"
| "preference_lines ((key, label) # rest) metadata =
     (case get_value metadata key of
        MStr s \<Rightarrow>
          (if s \<noteq> [] then [''- '' @ label @ '': '' @ s] else []) @ preference_lines rest metadata
      | MList xs \<Rightarrow>
          (if xs \<noteq> [] then [''- '' @ label @ '': '' @ py_join '', '' xs] else [])
          @ preference_lines rest metadata
      | MNone \<Rightarrow> preference_lines rest metadata)"

definition format_metadata_context_prompt :: "prompt_env \<Rightarrow> metadata \<Rightarrow> string" where
  "format_metadata_context_prompt env metadata =
     (if metadata = [] then []
      else py_join newline
        ([pushpin @ '' The user has already confirmed the following preferences in earlier ''
          @ ''messages. Do NOT change or ignore these unless the user explicitly says otherwise.'']
         @ preference_lines (dict_items (label_mapping env)) metadata
         @ [newline @ pointing_hand @ '' Continue the conversation using this context and only ''
            @ ''update fields if the user clearly expresses a change.'']))"

definition no_listings_text :: string where
  "no_listings_text =
     ''There are currently no listings available that match the user'' @ [CHR 0x27]
     @ ''s query. You must not invent any new listings. Wait for further input.''"

text \<open>
  \<open>build_prompt_or\<close>. With a non-empty \<open>similar_items\<close> it calls
  \<open>format_similar_items_or(similar_items)\<close>, one argument for a function whose two
  parameters \<open>similar_items\<close> and \<open>field_schema\<close> are both required: Python raises
  TypeError at the call, before the body of \<open>format_similar_items_or\<close> runs.
\<close>

definition build_prompt_or ::
  "prompt_env \<Rightarrow> string \<Rightarrow> history_item list \<Rightarrow> fact list \<Rightarrow> metadata
   \<Rightarrow> error + message list" where
  "build_prompt_or env current_message history similar_items session_metadata =
     (case format_history_or env history of
        Inl e \<Rightarrow> Inl e
      | Inr formatted \<Rightarrow>
          let messages = [\<lparr>role = ''system'', content = py_strip (system_prompt env)\<rparr>]
                @ filter (\<lambda>msg. role msg \<noteq> ''system'') formatted;
              messages = (if session_metadata \<noteq> [] then
                 messages @ [\<lparr>role = ''user'',
                              content = format_metadata_context_prompt env session_metadata\<rparr>]
               else messages)
          in if similar_items \<noteq> [] then Inl TypeError
             else
               let messages = messages @ [\<lparr>role = ''user'', content = no_listings_text\<rparr>]
               in Inr (if messages = [] \<or> role (last messages) \<noteq> ''user''
                          \<or> content (last messages) \<noteq> current_message
                       then messages @ [\<lparr>role = ''user'', content = current_message\<rparr>]
                       else messages))"

section \<open>Fact injection of the turn (main.py)\<close>

definition has_valid_value :: "mvalue \<Rightarrow> bool" where
  "has_valid_value v = (case v of MStr s \<Rightarrow> py_strip s \<noteq> [] | _ \<Rightarrow> False)"

definition inject_similar_items :: "metadata \<Rightarrow> bool" where
  "inject_similar_items session_metadata =
     (has_valid_value (get_value session_metadata ''location'')
      \<and> has_valid_value (get_value session_metadata ''urgency'')
      \<and> has_valid_value (get_value session_metadata ''budget''))"

definition similar_items_for_prompt :: "metadata \<Rightarrow> fact list \<Rightarrow> fact list \<Rightarrow> fact list" where
  "similar_items_for_prompt session_metadata current_similar_items previous_similar_items =
     (let similar_items =
        (if current_similar_items \<noteq> [] then current_similar_items else previous_similar_items)
      in if inject_similar_items session_metadata then similar_items else [])"

text \<open>
  The prompt of a turn: \<open>session_metadata\<close> is the profile read again after the merge,
  \<open>current_similar_items\<close> the result of the search, \<open>previous_similar_items\<close> the facts
  shown last.
\<close>

definition turn_prompt ::
  "prompt_env \<Rightarrow> string \<Rightarrow> history_item list \<Rightarrow> fact list \<Rightarrow> fact list \<Rightarrow> metadata
   \<Rightarrow> error + message list" where
  "turn_prompt env message history current_similar_items previous_similar_items
     session_metadata =
     build_prompt_or env message history
       (similar_items_for_prompt session_metadata current_similar_items previous_similar_items)
       session_metadata"

section \<open>Properties of the string model\<close>

lemma py_in_sublist: "py_in sub s = sublist sub s"
  by (induction s) (auto simp: sublist_Cons_right)

lemma py_strip_idem: "py_strip (py_strip s) = py_strip s"
proof -
  define t where "t = dropWhile is_space s"
  define w where "w = dropWhile is_space (rev t)"
  have ww: "dropWhile is_space w = w"
    unfolding w_def by simp
  have split: "rev t = takeWhile is_space (rev t) @ w"
    unfolding w_def by simp
  have t: "t = rev w @ rev (takeWhile is_space (rev t))"
    using arg_cong [OF split, of rev] by simp
  have head: "dropWhile is_space (rev w) = rev w"
  proof (cases "rev w")
    case Nil
    then show ?thesis by simp
  next
    case (Cons c cs)
    with t have tc: "t = c # cs @ rev (takeWhile is_space (rev t))" by simp
    have "t \<noteq> []" using tc by auto
    moreover have "hd t = c" by (subst tc) simp
    ultimately have "t \<noteq> []" and "hd t = c" by auto
    then have "\<not> is_space c"
      using hd_dropWhile [of is_space s] by (simp add: t_def)
    with Cons show ?thesis by simp
  qed
  have "py_strip s = rev w"
    by (simp add: py_strip_def t_def w_def)
  then show ?thesis
    using head ww by (simp add: py_strip_def)
qed

lemma str_of_nat_digit: "n < 10 \<Longrightarrow> str_of_nat n = [digit_char n]"
  by (subst str_of_nat.simps) simp

lemma str_of_nat_step:
  "10 \<le> n \<Longrightarrow> str_of_nat n = str_of_nat (n div 10) @ [digit_char (n mod 10)]"
  by (subst str_of_nat.simps) simp

lemmas eval_number = format_thousands_def str_of_nat_digit str_of_nat_step digit_char_def

section \<open>Properties of the grounding verifier\<close>

text \<open>
  C10. With \<open>must_match\<close> at its default \<open>False\<close>, as the turn orchestrator calls it,
  \<open>is_reply_grounded\<close> accepts every reply for every fact set, so the orchestrator
  never substitutes the fallback reply.
\<close>

theorem is_reply_grounded_default_accepts:
  "is_reply_grounded reply_text similar_items False
   \<and> checked_reply reply_text similar_items = reply_text"
  by (simp add: is_reply_grounded_def checked_reply_def Let_def)

lemma mentions_known_items_sublist:
  "mentions_known_items r items =
     (\<exists>h \<in> set items. sublist (py_lower (address h)) r \<or> sublist (py_lower (external_id h)) r)"
  by (auto simp: mentions_known_items_def list_ex_iff py_in_sublist)

lemma mentions_possible_listing_sublist:
  "mentions_possible_listing r = (\<exists>kw \<in> set listing_keywords. sublist kw r)"
  by (simp add: mentions_possible_listing_def list_ex_iff py_in_sublist)


text \<open>
  C7 (amended). The decision procedure of the grounding verifier, with \<open>r\<close> the
  lower-cased reply: an empty fact list is always accepted; a clarifying question (both
  ''would a'' and ''also work for you'' occur in \<open>r\<close>) is accepted; a reply in which the
  lower-cased address or identifier of a supplied fact occurs is accepted; otherwise, with
  facts supplied and no clarifying question, a reply that contains one of the listing
  keywords is rejected exactly when \<open>must_match\<close> is set; and a reply that contains none
  of the keywords is accepted.
\<close>

theorem is_reply_grounded_decision:
  fixes reply :: string and similar_items :: "fact list" and must_match :: bool
  defines "r \<equiv> py_lower reply"
  defines "clarifying \<equiv> sublist ''would a'' r \<and> sublist ''also work for you'' r"
  defines "known \<equiv> \<exists>h \<in> set similar_items.
              sublist (py_lower (address h)) r \<or> sublist (py_lower (external_id h)) r"
  defines "vocabulary \<equiv> \<exists>kw \<in> set listing_keywords. sublist kw r"
  shows "is_reply_grounded reply [] must_match
    \<and> (clarifying \<longrightarrow> is_reply_grounded reply similar_items must_match)
    \<and> (known \<longrightarrow> is_reply_grounded reply similar_items must_match)
    \<and> (similar_items \<noteq> [] \<and> \<not> clarifying \<and> \<not> known \<and> vocabulary \<longrightarrow>
          is_reply_grounded reply similar_items must_match = (\<not> must_match))
    \<and> (\<not> vocabulary \<longrightarrow> is_reply_grounded reply similar_items must_match)"
  unfolding r_def clarifying_def known_def vocabulary_def
  by (simp add: is_reply_grounded_def Let_def mentions_known_items_sublist
      mentions_possible_listing_sublist py_in_sublist)


text \<open>
  The four conditional cases of the decision procedure at concrete replies about one
  listing.
\<close>

theorem is_reply_grounded_decision_witness:
  "is_reply_grounded ''Would a flat in York also work for you?''
      [\<lparr>external_id = ''X1'', address = ''1 Main St''\<rparr>] True
   \<and> is_reply_grounded ''I suggest 1 main st.''
      [\<lparr>external_id = ''X1'', address = ''1 Main St''\<rparr>] True
   \<and> is_reply_grounded ''This listing is great''
      [\<lparr>external_id = ''X1'', address = ''1 Main St''\<rparr>] True = (\<not> True)
   \<and> is_reply_grounded ''Hello there''
      [\<lparr>external_id = ''X1'', address = ''1 Main St''\<rparr>] True"
proof -
  let ?items = "[\<lparr>external_id = ''X1'', address = ''1 Main St''\<rparr>]"
  have clarifying:
    "sublist ''would a'' (py_lower ''Would a flat in York also work for you?'')
     \<and> sublist ''also work for you'' (py_lower ''Would a flat in York also work for you?'')"
    by code_simp
  have known:
    "\<exists>h \<in> set ?items. sublist (py_lower (address h)) (py_lower ''I suggest 1 main st.'')
        \<or> sublist (py_lower (external_id h)) (py_lower ''I suggest 1 main st.'')"
    by code_simp
  have suspected:
    "?items \<noteq> []
     \<and> \<not> (sublist ''would a'' (py_lower ''This listing is great'')
          \<and> sublist ''also work for you'' (py_lower ''This listing is great''))
     \<and> \<not> (\<exists>h \<in> set ?items. sublist (py_lower (address h)) (py_lower ''This listing is great'')
            \<or> sublist (py_lower (external_id h)) (py_lower ''This listing is great''))
     \<and> (\<exists>kw \<in> set listing_keywords. sublist kw (py_lower ''This listing is great''))"
    by code_simp
  have neutral: "\<not> (\<exists>kw \<in> set listing_keywords. sublist kw (py_lower ''Hello there''))"
    by code_simp
  have c1: "is_reply_grounded ''Would a flat in York also work for you?'' ?items True"
    using is_reply_grounded_decision
        [where reply = "''Would a flat in York also work for you?''"
           and similar_items = ?items and must_match = True,
         THEN conjunct2, THEN conjunct1, THEN mp, OF clarifying] .
  have c2: "is_reply_grounded ''I suggest 1 main st.'' ?items True"
    using is_reply_grounded_decision
        [where reply = "''I suggest 1 main st.''" and similar_items = ?items
           and must_match = True,
         THEN conjunct2, THEN conjunct2, THEN conjunct1, THEN mp, OF known] .
  have c3: "is_reply_grounded ''This listing is great'' ?items True = (\<not> True)"
    using is_reply_grounded_decision
        [where reply = "''This listing is great''" and similar_items = ?items
           and must_match = True,
         THEN conjunct2, THEN conjunct2, THEN conjunct2, THEN conjunct1, THEN mp,
         OF suspected] .
  have c4: "is_reply_grounded ''Hello there'' ?items True"
    using is_reply_grounded_decision
        [where reply = "''Hello there''" and similar_items = ?items and must_match = True,
         THEN conjunct2, THEN conjunct2, THEN conjunct2, THEN conjunct2, THEN mp,
         OF neutral] .
  from c1 c2 c3 c4 show ?thesis by (intro conjI)
qed

text \<open>
  C7 as stated leaves the clarifying-question exemption out: the reply below names no
  supplied fact and contains the keyword ''property'', strict mode is set, and the reply is
  accepted all the same.
\<close>

theorem is_reply_grounded_clarifying_counterexample:
  "is_reply_grounded ''Would a property in York also work for you?''
      [\<lparr>external_id = ''X1'', address = ''1 Main St''\<rparr>] True
   \<and> sublist ''property'' (py_lower ''Would a property in York also work for you?'')
   \<and> \<not> sublist (py_lower ''X1'') (py_lower ''Would a property in York also work for you?'')
   \<and> \<not> sublist (py_lower ''1 Main St'')
          (py_lower ''Would a property in York also work for you?'')"
  by code_simp

section \<open>Properties of the sanitizers\<close>

lemma findall_3digits_matches:
  "r \<in> set (findall_3digits run s) \<Longrightarrow> \<forall>c \<in> set run. is_digit c
   \<Longrightarrow> 3 \<le> length r \<and> (\<forall>c \<in> set r. is_digit c)"
  by (induction run s rule: findall_3digits.induct) (auto split: if_splits)

lemma int_of_digits_snoc: "int_of_digits (ds @ [c]) = 10 * int_of_digits ds + digit_value c"
  by (simp add: int_of_digits_def)

lemma digit_value_digit_char: "0 \<le> d \<Longrightarrow> d < 10 \<Longrightarrow> digit_value (digit_char d) = d"
proof -
  assume "0 \<le> d" "d < 10"
  then have "d \<in> {0, 1, 2, 3, 4, 5, 6, 7, 8, 9}" by simp arith
  then show ?thesis by (auto simp: digit_value_def digit_char_def)
qed

lemma int_of_digits_str_of_nat: "0 \<le> n \<Longrightarrow> int_of_digits (str_of_nat n) = n"
proof (induction n rule: str_of_nat.induct)
  case (1 n)
  show ?case
  proof (cases "n < 10")
    case True
    then show ?thesis
      using "1.prems" by (simp add: str_of_nat_digit int_of_digits_def digit_value_digit_char)
  next
    case False
    then have "int_of_digits (str_of_nat n) = 10 * (n div 10) + n mod 10"
      using "1.IH" "1.prems"
      by (simp add: str_of_nat_step int_of_digits_snoc digit_value_digit_char)
    then show ?thesis by simp
  qed
qed

lemma remove_commas_group_thousands:
  "remove_commas (group_thousands ds) = remove_commas ds"
  by (induction ds rule: group_thousands.induct) (auto simp: remove_commas_def)

lemma digit_char_not_comma: "0 \<le> d \<Longrightarrow> d < 10 \<Longrightarrow> digit_char d \<noteq> CHR '',''"
proof -
  assume "0 \<le> d" "d < 10"
  then have "d \<in> {0, 1, 2, 3, 4, 5, 6, 7, 8, 9}" by simp arith
  then show ?thesis by (auto simp: digit_char_def)
qed

lemma str_of_nat_no_comma: "0 \<le> n \<Longrightarrow> CHR '','' \<notin> set (str_of_nat n)"
proof (induction n rule: str_of_nat.induct)
  case (1 n)
  show ?case
  proof (cases "n < 10")
    case True
    then show ?thesis
      using "1.prems" digit_char_not_comma [of n] by (simp add: str_of_nat_digit)
  next
    case False
    then show ?thesis
      using "1.IH" "1.prems" digit_char_not_comma [of "n mod 10"]
      by (simp add: str_of_nat_step)
  qed
qed

lemma remove_commas_format_thousands:
  "0 \<le> n \<Longrightarrow> remove_commas (format_thousands n) = str_of_nat n"
proof -
  assume nonneg: "0 \<le> n"
  have "remove_commas (rev xs) = rev (remove_commas xs)" for xs
    by (simp add: remove_commas_def rev_filter)
  then have "remove_commas (format_thousands n) = rev (remove_commas (rev (str_of_nat n)))"
    by (simp add: format_thousands_def remove_commas_group_thousands)
  also have "\<dots> = str_of_nat n"
    using str_of_nat_no_comma [OF nonneg] by (auto simp: remove_commas_def rev_filter filter_id_conv)
  finally show ?thesis .
qed

lemma format_thousands_value:
  "0 \<le> n \<Longrightarrow> int_of_digits (remove_commas (format_thousands n)) = n"
  by (simp add: remove_commas_format_thousands int_of_digits_str_of_nat)

text \<open>
  C3 (amended). \<open>sanitize_range_number\<close> returns null for a falsy input; otherwise it
  takes the runs of at least three digits of \<open>str(value)\<close> with the commas removed, and
  returns null for no run, the formatted pound amount for exactly one run, the range of
  the two formatted amounts for exactly two runs, and null for three runs or more.
\<close>

theorem sanitize_range_number_cases:
  fixes v :: json
  defines "m \<equiv> findall_3digits [] (remove_commas (py_str v))"
  shows "(\<not> truthy v \<or> m = [] \<longrightarrow> sanitize_range_number v = None)
    \<and> (\<forall>a. truthy v \<and> m = [a] \<longrightarrow>
          sanitize_range_number v = Some (pound @ format_thousands (int_of_digits a)))
    \<and> (\<forall>a b. truthy v \<and> m = [a, b] \<longrightarrow>
          sanitize_range_number v =
            Some (pound @ format_thousands (int_of_digits a) @ en_dash
                  @ pound @ format_thousands (int_of_digits b)))
    \<and> (3 \<le> length m \<longrightarrow> sanitize_range_number v = None)"
  unfolding m_def by (simp add: sanitize_range_number_def Let_def)

text \<open>
  The three examples of the specification, evaluated through the theorem: one amount, a
  range, and no number.
\<close>

theorem sanitize_range_number_cases_witness:
  "sanitize_range_number (JStr ''250,000'') = Some (pound @ ''250,000'')
   \<and> sanitize_range_number (JStr ''between 250000 and 300,000'')
       = Some (pound @ ''250,000'' @ en_dash @ pound @ ''300,000'')
   \<and> sanitize_range_number (JStr ''no numbers'') = None
   \<and> sanitize_range_number (JStr ''100 200 300 400'') = None"
proof -
  have one: "truthy (JStr ''250,000'')
      \<and> findall_3digits [] (remove_commas (py_str (JStr ''250,000''))) = [''250000'']"
    by code_simp
  have two: "truthy (JStr ''between 250000 and 300,000'')
      \<and> findall_3digits [] (remove_commas (py_str (JStr ''between 250000 and 300,000'')))
          = [''250000'', ''300000'']"
    by code_simp
  have none: "\<not> truthy (JStr ''no numbers'')
      \<or> findall_3digits [] (remove_commas (py_str (JStr ''no numbers''))) = []"
    by code_simp
  have many:
    "3 \<le> length (findall_3digits [] (remove_commas (py_str (JStr ''100 200 300 400''))))"
    by code_simp
  have low: "format_thousands (int_of_digits ''250000'') = ''250,000''"
    by (simp add: int_of_digits_def digit_value_def eval_number)
  have high: "format_thousands (int_of_digits ''300000'') = ''300,000''"
    by (simp add: int_of_digits_def digit_value_def eval_number)
  have c1: "sanitize_range_number (JStr ''250,000'') = Some (pound @ ''250,000'')"
    using sanitize_range_number_cases
        [where v = "JStr ''250,000''", THEN conjunct2, THEN conjunct1, THEN spec, THEN mp,
         OF one]
    by (simp only: low)
  have c2: "sanitize_range_number (JStr ''between 250000 and 300,000'')
       = Some (pound @ ''250,000'' @ en_dash @ pound @ ''300,000'')"
    using sanitize_range_number_cases
        [where v = "JStr ''between 250000 and 300,000''", THEN conjunct2, THEN conjunct2,
         THEN conjunct1, THEN spec, THEN spec, THEN mp, OF two]
    by (simp only: low high)
  have c3: "sanitize_range_number (JStr ''no numbers'') = None"
    using sanitize_range_number_cases
        [where v = "JStr ''no numbers''", THEN conjunct1, THEN mp, OF none] .
  have c4: "sanitize_range_number (JStr ''100 200 300 400'') = None"
    using sanitize_range_number_cases
        [where v = "JStr ''100 200 300 400''", THEN conjunct2, THEN conjunct2,
         THEN conjunct2, THEN mp, OF many] .
  from c1 c2 c3 c4 show ?thesis by (intro conjI)
qed

text \<open>
  C3 as stated takes the first two of three or more numbers as a range. The input below
  holds three runs of three digits and the sanitizer returns null, not the range of 100
  and 200.
\<close>

theorem sanitize_range_number_three_counterexample:
  "findall_3digits [] (remove_commas (py_str (JStr ''100 200 300''))) = [''100'', ''200'', ''300'']
   \<and> sanitize_range_number (JStr ''100 200 300'') = None
   \<and> sanitize_range_number (JStr ''100 200 300'')
       \<noteq> Some (pound @ ''100'' @ en_dash @ pound @ ''200'')"
  by code_simp

section \<open>Properties of validate\_metadata\<close>

lemma fst_set_update: "fst ` set (AList.update k v al) = insert k (fst ` set al)"
  by (induction al) auto

lemma dict_items_keys: "fst ` set (dict_items d) = fst ` set d"
  using clearjunk_keys_set [of d] by (simp add: dict_items_def)

lemma validate_fields_keys:
  "validate_fields raw fs metadata = Inr result
   \<Longrightarrow> fst ` set result = fst ` set metadata \<union> fst ` set fs"
proof (induction fs arbitrary: metadata)
  case Nil
  then show ?case by simp
next
  case (Cons fc fs)
  obtain field config where fc: "fc = (field, config)" by (cases fc)
  from Cons.prems obtain v where
    "validate_fields raw fs (AList.update field v metadata) = Inr result"
    by (auto simp: fc split: sum.splits)
  from Cons.IH [OF this] show ?case by (auto simp: fc fst_set_update)
qed

lemma validate_fields_lookup:
  "distinct (map fst fs) \<Longrightarrow> validate_fields raw fs metadata = Inr result
   \<Longrightarrow> (case map_of fs k of
          None \<Rightarrow> map_of result k = map_of metadata k
        | Some config \<Rightarrow>
            (\<exists>v. sanitize_field config (get_or_null raw k) = Inr v \<and> map_of result k = Some v))"
proof (induction fs arbitrary: metadata)
  case Nil
  then show ?case by simp
next
  case (Cons fc fs)
  obtain field config where fc: "fc = (field, config)" by (cases fc)
  from Cons.prems obtain v where
    v: "sanitize_field config (get_or_null raw field) = Inr v"
    and rest: "validate_fields raw fs (AList.update field v metadata) = Inr result"
    by (auto simp: fc split: sum.splits)
  from Cons.prems have dist: "distinct (map fst fs)" and fresh: "field \<notin> fst ` set fs"
    by (auto simp: fc)
  from fresh have none: "map_of fs field = None"
    by (simp add: map_of_eq_None_iff)
  note ih = Cons.IH [OF dist rest]
  show ?case
  proof (cases "k = field")
    case True
    with ih none v show ?thesis
      by (simp add: fc update_conv')
  next
    case False
    with ih show ?thesis
      by (cases "map_of fs k") (simp_all add: fc update_conv')
  qed
qed

text \<open>
  C8 (amended). The keys of the metadata returned by \<open>validate_metadata\<close> are exactly
  \<open>session_id\<close> and the fields declared in the schema: a declared field is a key even
  when the raw input lacks it, a raw key that the schema does not declare is dropped, and
  \<open>session_id\<close> is a key whether the schema declares it or not. Every declared field,
  a declared \<open>session_id\<close> too, holds what the field's sanitizer returns for the raw value
  (for null when the raw input lacks the field); \<open>session_id\<close> holds the raw value
  (null when the raw input lacks it) when the schema does not declare it.
\<close>

theorem validate_metadata_keys:
  assumes "validate_metadata schema raw = Inr metadata"
  shows "fst ` set metadata = insert ''session_id'' (fst ` set (metadata_fields schema))
    \<and> (\<forall>field config. map_of (metadata_fields schema) field = Some config \<longrightarrow>
          (\<exists>v. sanitize_field config (get_or_null raw field) = Inr v
             \<and> map_of metadata field = Some v))
    \<and> (''session_id'' \<notin> fst ` set (metadata_fields schema) \<longrightarrow>
          map_of metadata ''session_id'' = Some (get_or_null raw ''session_id''))"
proof -
  let ?fs = "dict_items (metadata_fields schema)"
  let ?start = "[(''session_id'', get_or_null raw ''session_id'')]"
  from assms have run: "validate_fields raw ?fs ?start = Inr metadata"
    by (simp add: validate_metadata_def)
  have dist: "distinct (map fst ?fs)"
    by (simp add: dict_items_def)
  have look: "map_of ?fs k = map_of (metadata_fields schema) k" for k
    by (simp add: dict_items_def map_of_clearjunk)
  note each = validate_fields_lookup [OF dist run]
  have keys: "fst ` set metadata = insert ''session_id'' (fst ` set (metadata_fields schema))"
    using validate_fields_keys [OF run] by (simp add: dict_items_keys)
  have declared: "\<exists>v. sanitize_field config (get_or_null raw field) = Inr v
      \<and> map_of metadata field = Some v"
    if "map_of (metadata_fields schema) field = Some config" for field config
    using each [of field] that by (simp add: look)
  have undeclared: "map_of metadata ''session_id'' = Some (get_or_null raw ''session_id'')"
    if "''session_id'' \<notin> fst ` set (metadata_fields schema)"
  proof -
    from that have "map_of (metadata_fields schema) ''session_id'' = None"
      by (simp add: map_of_eq_None_iff)
    with each [of "''session_id''"] show ?thesis by (simp add: look)
  qed
  from keys declared undeclared show ?thesis by blast
qed

text \<open>
  A schema that declares the list field \<open>features\<close>, and a raw input with a session id,
  a comma-separated \<open>features\<close> and a \<open>colour\<close> that the schema does not declare.
\<close>

theorem validate_metadata_keys_witness:
  "fst ` set [(''session_id'', JStr ''s1''), (''features'', JList [JStr ''garden'', JStr ''balcony''])]
     = insert ''session_id''
         (fst ` set (metadata_fields
            \<lparr>metadata_fields =
               [(''features'', \<lparr>ftype = Some ''list'', choices = None, weights = None\<rparr>)],
             lead_score_thresholds = None, context_labels = []\<rparr>))
   \<and> (\<exists>v. sanitize_field \<lparr>ftype = Some ''list'', choices = None, weights = None\<rparr>
            (get_or_null
               [(''session_id'', JStr ''s1''), (''features'', JStr ''garden, balcony''),
                (''colour'', JStr ''red'')] ''features'') = Inr v
          \<and> map_of [(''session_id'', JStr ''s1''),
                     (''features'', JList [JStr ''garden'', JStr ''balcony''])] ''features''
              = Some v)
   \<and> map_of [(''session_id'', JStr ''s1''),
              (''features'', JList [JStr ''garden'', JStr ''balcony''])] ''session_id''
       = Some (get_or_null
           [(''session_id'', JStr ''s1''), (''features'', JStr ''garden, balcony''),
            (''colour'', JStr ''red'')] ''session_id'')"
proof -
  let ?schema = "\<lparr>metadata_fields =
       [(''features'', \<lparr>ftype = Some ''list'', choices = None, weights = None\<rparr>)],
     lead_score_thresholds = None, context_labels = []\<rparr>"
  let ?raw = "[(''session_id'', JStr ''s1''), (''features'', JStr ''garden, balcony''),
       (''colour'', JStr ''red'')]"
  have run: "validate_metadata ?schema ?raw
    = Inr [(''session_id'', JStr ''s1''),
           (''features'', JList [JStr ''garden'', JStr ''balcony''])]"
    by code_simp
  have declared: "map_of (metadata_fields ?schema) ''features''
      = Some \<lparr>ftype = Some ''list'', choices = None, weights = None\<rparr>"
    by code_simp
  have undeclared: "''session_id'' \<notin> fst ` set (metadata_fields ?schema)"
    by code_simp
  note all = validate_metadata_keys [OF run]
  show ?thesis
    by (intro conjI)
      (rule all [THEN conjunct1],
       rule all [THEN conjunct2, THEN conjunct1, THEN spec, THEN spec, THEN mp, OF declared],
       rule all [THEN conjunct2, THEN conjunct2, THEN mp, OF undeclared])
qed

text \<open>
  C8 as stated admits no key outside the declared fields. For a schema that declares the
  single field \<open>features\<close> and an empty raw input, the result has the key \<open>session_id\<close>,
  which the schema does not declare.
\<close>

theorem validate_metadata_session_id_counterexample:
  "validate_metadata
      \<lparr>metadata_fields =
         [(''features'', \<lparr>ftype = Some ''list'', choices = None, weights = None\<rparr>)],
       lead_score_thresholds = None, context_labels = []\<rparr> []
    = Inr [(''session_id'', JNull), (''features'', JList [])]
   \<and> ''session_id'' \<notin> fst ` set (metadata_fields
        \<lparr>metadata_fields =
           [(''features'', \<lparr>ftype = Some ''list'', choices = None, weights = None\<rparr>)],
         lead_score_thresholds = None, context_labels = []\<rparr>)"
  by code_simp

text \<open>
  The sanitizers other than \<open>sanitize_type\<close> return for every value: a field with
  declared choices, or of a type other than \<open>type\<close>, never makes \<open>validate_metadata\<close>
  raise.
\<close>

lemma sanitize_field_returns:
  "choices config \<noteq> None \<or> ftype config \<noteq> Some ''type''
   \<Longrightarrow> \<exists>r. sanitize_field config v = Inr r"
  by (auto simp: sanitize_field_def FIELD_SANITIZERS_def Let_def split: option.splits)

text \<open>
  C9. \<open>validate_metadata\<close> is claimed to return for every raw input. For a field of type
  \<open>type\<close> whose raw value is a list that starts with a number, \<open>sanitize_type\<close> calls
  \<open>strip\<close> on the number and the AttributeError leaves \<open>validate_metadata\<close>.
\<close>

theorem validate_metadata_raises_on_type_list:
  "validate_metadata
      \<lparr>metadata_fields =
         [(''property_type'', \<lparr>ftype = Some ''type'', choices = None, weights = None\<rparr>)],
       lead_score_thresholds = None, context_labels = []\<rparr>
      [(''property_type'', JList [JNum 5])]
    = Inl AttributeError"
  by code_simp

section \<open>Properties of the lead classifier\<close>

lemma add_threshold_scores_sum:
  "add_threshold_scores max_val pairs score
   = score + sum_list (map (\<lambda>(threshold, s). if threshold \<le> max_val then s else 0) pairs)"
  by (induction max_val pairs score rule: add_threshold_scores.induct) auto

text \<open>
  C2 (amended). For a \<open>range_number\<close> field whose weights hold the sequences
  \<open>thresholds\<close> and \<open>scores\<close>, and a value of the profile that is not empty and whose
  text (commas removed) holds at least one run of three digits or more, the classifier
  reads the last run as a number and adds to the score the scores of all the thresholds
  that the number reaches, each threshold paired with the score at its position.
\<close>

theorem score_field_thresholds:
  assumes "ftype field_config = Some ''range_number''"
    and "weights field_config = Some ws"
    and "map_of ws ''thresholds'' = Some (WSeq thresholds)"
    and "map_of ws ''scores'' = Some (WSeq scores)"
    and "truthy_value value"
    and "findall_3digits [] (remove_commas (py_str (json_of value))) = earlier @ [upper]"
  shows "score_field value field_config score
    = Inr (score + sum_list (map (\<lambda>(threshold, s). if threshold \<le> int_of_digits upper then s else 0)
                         (zip thresholds scores)))"
  using assms by (simp add: score_field_def Let_def add_threshold_scores_sum)

theorem score_field_thresholds_witness:
  "score_field (MStr (pound @ ''250,000'' @ en_dash @ pound @ ''300,000''))
     \<lparr>ftype = Some ''range_number'', choices = None,
      weights = Some [(''thresholds'', WSeq [200000, 300000, 400000]),
                      (''scores'', WSeq [1, 2, 4])]\<rparr> 0
   = Inr 3"
proof -
  let ?config = "\<lparr>ftype = Some ''range_number'', choices = None,
      weights = Some [(''thresholds'', WSeq [200000, 300000, 400000]),
                      (''scores'', WSeq [1, 2, 4])]\<rparr>"
  let ?ws = "[(''thresholds'', WSeq [200000, 300000, 400000]), (''scores'', WSeq [1, 2, 4])]"
  let ?profile_value = "MStr (pound @ ''250,000'' @ en_dash @ pound @ ''300,000'')"
  have h1: "ftype ?config = Some ''range_number''" by simp
  have h2: "weights ?config = Some ?ws" by simp
  have h3: "map_of ?ws ''thresholds'' = Some (WSeq [200000, 300000, 400000])" by simp
  have h4: "map_of ?ws ''scores'' = Some (WSeq [1, 2, 4])" by simp
  have h5: "truthy_value ?profile_value" by code_simp
  have h6: "findall_3digits [] (remove_commas (py_str (json_of ?profile_value)))
      = [''250000''] @ [''300000'']"
    by code_simp
  have total: "(0::int) + sum_list (map (\<lambda>(threshold, s).
        if threshold \<le> int_of_digits ''300000'' then s else 0)
      (zip [200000, 300000, 400000] [1, 2, 4])) = 3"
    by code_simp
  show ?thesis
    using score_field_thresholds [OF h1 h2 h3 h4 h5 h6, of 0] by (simp only: total)
qed

text \<open>
  C2 as stated adds the score of the highest threshold reached and no other. With the
  thresholds 100000 and 200000 scoring 1 and 2, and the budget 250,000 pounds, the
  classifier adds 1 + 2 = 3 and the lead is Hot; the rule of the specification gives 2.
  The number taken is the last of the text, not the greatest: for the range of 300,000
  to 150,000 pounds, which the sanitizer produces from the text in that order, the
  classifier compares 150000 and adds 1.
\<close>

theorem score_field_cumulative_counterexample:
  "score_field (MStr (pound @ ''250,000''))
     \<lparr>ftype = Some ''range_number'', choices = None,
      weights = Some [(''thresholds'', WSeq [100000, 200000]), (''scores'', WSeq [1, 2])]\<rparr> 0
   = Inr 3
   \<and> spec_highest_threshold_score (int_of_digits ''250000'') [100000, 200000] [1, 2] = 2
   \<and> score_field (MStr (pound @ ''300,000'' @ en_dash @ pound @ ''150,000''))
       \<lparr>ftype = Some ''range_number'', choices = None,
        weights = Some [(''thresholds'', WSeq [100000, 200000]), (''scores'', WSeq [1, 2])]\<rparr> 0
     = Inr 1
   \<and> classify_lead [(''budget'', MStr (pound @ ''250,000''))]
       \<lparr>metadata_fields =
          [(''budget'', \<lparr>ftype = Some ''range_number'', choices = None,
             weights = Some [(''thresholds'', WSeq [100000, 200000]),
                             (''scores'', WSeq [1, 2])]\<rparr>)],
        lead_score_thresholds = None, context_labels = []\<rparr>
     = Inr ''Hot''"
  by code_simp

section \<open>Properties of the profile store\<close>

lemma map_of_dict_items: "map_of (dict_items d) = map_of d"
  by (simp add: dict_items_def map_of_clearjunk)

lemma distinct_dict_items: "distinct (map fst (dict_items d))"
  by (simp add: dict_items_def)

lemma get_list_Inr: "get_list d key = Inr old \<Longrightarrow> old = list_or_nil (map_of d key)"
  by (auto simp: get_list_def split: option.splits mvalue.splits)

lemma merge_new_lookup:
  "distinct (map fst its) \<Longrightarrow> merge_new its merged = Inr r
   \<Longrightarrow> map_of r k = merged_new_value (map_of its k) (map_of merged k)"
proof (induction its arbitrary: merged)
  case Nil
  then show ?case by simp
next
  case (Cons kv its)
  obtain key v where kv: "kv = (key, v)" by (cases kv)
  have none: "map_of its key = None"
    using Cons.prems(1) by (simp add: kv map_of_eq_None_iff)
  have dist: "distinct (map fst its)" using Cons.prems(1) by simp
  show ?case
  proof (cases v)
    case MNone
    with Cons.prems(2) have "merge_new its merged = Inr r" by (simp add: kv)
    from Cons.IH [OF dist this] show ?thesis using none by (simp add: kv MNone)
  next
    case (MStr s)
    with Cons.prems(2) have "merge_new its (AList.update key (MStr s) merged) = Inr r"
      by (simp add: kv)
    from Cons.IH [OF dist this] show ?thesis
      using none by (simp add: kv MStr update_conv')
  next
    case (MList xs)
    with Cons.prems(2) obtain old where old: "get_list merged key = Inr old"
      and rec: "merge_new its (AList.update key (MList (list_of_set (old @ xs))) merged) = Inr r"
      by (auto simp: kv split: sum.splits)
    from Cons.IH [OF dist rec] show ?thesis
      using none get_list_Inr [OF old] by (simp add: kv MList update_conv')
  qed
qed

lemma merge_existing_lookup:
  "distinct (map fst its) \<Longrightarrow> merge_existing its existing merged = Inr r
   \<Longrightarrow> map_of r k
       = merged_existing_value (map_of its k) (map_of existing k) (map_of merged k)"
proof (induction its arbitrary: merged)
  case Nil
  then show ?case by simp
next
  case (Cons kv its)
  obtain key v where kv: "kv = (key, v)" by (cases kv)
  have none: "map_of its key = None"
    using Cons.prems(1) by (simp add: kv map_of_eq_None_iff)
  have dist: "distinct (map fst its)" using Cons.prems(1) by simp
  show ?case
  proof (cases v)
    case MNone
    with Cons.prems(2) have "merge_existing its existing merged = Inr r" by (simp add: kv)
    from Cons.IH [OF dist this] show ?thesis using none by (simp add: kv MNone)
  next
    case (MStr s)
    show ?thesis
    proof (cases "py_strip s = []")
      case True
      with Cons.prems(2) MStr have "merge_existing its existing merged = Inr r"
        by (simp add: kv)
      from Cons.IH [OF dist this] show ?thesis using none True by (simp add: kv MStr)
    next
      case False
      with Cons.prems(2) MStr
      have "merge_existing its existing (AList.update key (MStr s) merged) = Inr r"
        by (simp add: kv)
      from Cons.IH [OF dist this] show ?thesis
        using none False by (simp add: kv MStr update_conv')
    qed
  next
    case (MList xs)
    with Cons.prems(2) obtain old where old: "get_list existing key = Inr old"
      and rec: "merge_existing its existing
          (AList.update key (MList (list_of_set (old @ xs))) merged) = Inr r"
      by (auto simp: kv split: sum.splits)
    from Cons.IH [OF dist rec] show ?thesis
      using none get_list_Inr [OF old] by (simp add: kv MList update_conv')
  qed
qed

lemma put_attributes_lookup:
  "distinct (map fst its)
   \<Longrightarrow> map_of (put_attributes its item) k
       = (case map_of its k of
            None \<Rightarrow> map_of item k
          | Some v \<Rightarrow> (case attribute_of v of None \<Rightarrow> map_of item k | Some a \<Rightarrow> Some a))"
proof (induction its arbitrary: item)
  case Nil
  then show ?case by simp
next
  case (Cons kv its)
  obtain key v where kv: "kv = (key, v)" by (cases kv)
  have none: "map_of its key = None"
    using Cons.prems by (simp add: kv map_of_eq_None_iff)
  have dist: "distinct (map fst its)" using Cons.prems by simp
  show ?case
    using Cons.IH [OF dist] none
    by (cases v) (auto simp: kv update_conv' split: option.splits)
qed

lemma load_attributes_lookup:
  "distinct (map fst its)
   \<Longrightarrow> map_of (load_attributes its result) k
       = (if k = ''user_id'' \<or> k = ''timestamp'' then map_of result k
          else case map_of its k of
                 None \<Rightarrow> map_of result k
               | Some a \<Rightarrow> Some (value_of a))"
proof (induction its arbitrary: result)
  case Nil
  then show ?case by simp
next
  case (Cons kv its)
  obtain key a where kv: "kv = (key, a)" by (cases kv)
  have none: "map_of its key = None"
    using Cons.prems by (simp add: kv map_of_eq_None_iff)
  have dist: "distinct (map fst its)" using Cons.prems by simp
  show ?case
    using Cons.IH [OF dist] none
    by (cases a) (auto simp: kv update_conv' split: option.splits)
qed

lemma load_metadata_lookup:
  "map_of (load_metadata (Some item)) k
   = (if k = ''user_id'' \<or> k = ''timestamp'' then None
      else map_option value_of (map_of item k))"
  by (auto simp: load_metadata_def load_attributes_lookup distinct_dict_items map_of_dict_items
      split: option.splits)

lemma load_metadata_reserved:
  assumes "k = ''user_id'' \<or> k = ''timestamp''"
  shows "map_of (load_metadata store) k = None"
proof (cases store)
  case None
  then show ?thesis by (simp add: load_metadata_def)
next
  case (Some item)
  then show ?thesis using assms by (simp add: load_metadata_lookup)
qed

lemma update_and_save_metadata_lookup:
  assumes "update_and_save_metadata user_id now schema store new_metadata = Inr item"
  shows "\<exists>merged tier.
      merge_new (dict_items new_metadata) (load_metadata store) = Inr merged
      \<and> classify_lead merged schema = Inr tier
      \<and> (\<forall>k. map_of (load_metadata (Some item)) k
              = persisted_lookup (load_metadata store) new_metadata tier k)"
proof -
  let ?p = "load_metadata store"
  from assms obtain merged tier merged2 where
    m1: "merge_new (dict_items new_metadata) ?p = Inr merged"
    and cl: "classify_lead merged schema = Inr tier"
    and m2: "merge_existing
        (dict_items (AList.update ''lead_classification'' (MStr tier) merged)) ?p ?p
        = Inr merged2"
    and item: "item = put_attributes (dict_items merged2)
        [(''user_id'', S user_id), (''timestamp'', S now)]"
    by (auto simp: update_and_save_metadata_def save_metadata_def Let_def split: sum.splits)
  have l1: "map_of merged k = merged_new_value (map_of new_metadata k) (map_of ?p k)" for k
    using merge_new_lookup [OF distinct_dict_items m1, of k] by (simp add: map_of_dict_items)
  have l2: "map_of merged2 k
      = merged_existing_value
          (if k = ''lead_classification'' then Some (MStr tier)
           else merged_new_value (map_of new_metadata k) (map_of ?p k))
          (map_of ?p k) (map_of ?p k)" for k
    using merge_existing_lookup [OF distinct_dict_items m2, of k]
    by (simp add: map_of_dict_items update_conv' l1)
  have "map_of (load_metadata (Some item)) k = persisted_lookup ?p new_metadata tier k" for k
  proof (cases "k = ''user_id'' \<or> k = ''timestamp''")
    case True
    then show ?thesis by (auto simp: load_metadata_lookup persisted_lookup_def)
  next
    case False
    then have "map_of item k
        = (case map_of merged2 k of
             None \<Rightarrow> None
           | Some v \<Rightarrow> attribute_of v)"
      by (auto simp: item put_attributes_lookup distinct_dict_items map_of_dict_items
          split: option.splits)
    then show ?thesis
      using False
      by (auto simp: load_metadata_lookup persisted_lookup_def persisted_value_def l2
          split: option.splits)
  qed
  with m1 cl show ?thesis by blast
qed

lemma merge_new_list_compatible:
  "distinct (map fst its) \<Longrightarrow> merge_new its merged = Inr r
   \<Longrightarrow> map_of its k = Some (MList xs)
   \<Longrightarrow> map_of merged k = None \<or> (\<exists>old. map_of merged k = Some (MList old))"
proof (induction its arbitrary: merged)
  case Nil
  then show ?case by simp
next
  case (Cons kv its)
  obtain key v where kv: "kv = (key, v)" by (cases kv)
  have dist: "distinct (map fst its)" using Cons.prems(1) by simp
  show ?case
  proof (cases "key = k")
    case True
    with Cons.prems(3) have v: "v = MList xs" by (simp add: kv)
    with Cons.prems(2) obtain old where "get_list merged k = Inr old"
      by (auto simp: kv True split: sum.splits)
    then show ?thesis
      by (auto simp: get_list_def split: option.splits mvalue.splits)
  next
    case False
    with Cons.prems(3) have k: "map_of its k = Some (MList xs)" by (simp add: kv)
    from Cons.prems(2) obtain merged' where rec: "merge_new its merged' = Inr r"
      and same: "map_of merged' k = map_of merged k"
      using False
      by (cases v) (auto simp: kv update_conv' split: sum.splits)
    from Cons.IH [OF dist rec k] same show ?thesis by simp
  qed
qed

lemma list_of_set_set [simp]: "set (list_of_set xs) = set xs"
  by (simp add: list_of_set_def)

lemma list_of_set_Nil [simp]: "list_of_set xs = [] \<longleftrightarrow> xs = []"
  by (simp add: list_of_set_def)




section \<open>Idempotence of the merge\<close>

lemma score_fields_cong:
  "(\<And>k. k \<in> fst ` set fs \<Longrightarrow> get_value a k = get_value b k)
   \<Longrightarrow> score_fields fs a score = score_fields fs b score"
proof (induction fs arbitrary: score)
  case Nil
  then show ?case by simp
next
  case (Cons kc fs)
  obtain key config where kc: "kc = (key, config)" by (cases kc)
  have head: "get_value a key = get_value b key" using Cons.prems [of key] by (simp add: kc)
  have rest: "score_fields fs a s = score_fields fs b s" for s
    using Cons.IH Cons.prems by simp
  show ?case by (simp add: kc head rest split: sum.splits)
qed

lemma classify_lead_cong:
  assumes "\<And>k. k \<in> fst ` set (metadata_fields schema) \<Longrightarrow> map_of a k = map_of b k"
  shows "classify_lead a schema = classify_lead b schema"
proof -
  have "score_fields (dict_items (metadata_fields schema)) a 0
      = score_fields (dict_items (metadata_fields schema)) b 0"
    using assms by (intro score_fields_cong) (simp add: dict_items_keys get_value_def)
  then show ?thesis by (simp add: classify_lead_def)
qed

lemma list_of_set_absorb_left:
  "list_of_set (xs @ list_of_set (xs @ ys)) = list_of_set (xs @ ys)"
proof -
  have "[x \<leftarrow> xs. x \<notin> set (remdups (xs @ ys))] = []" by (simp add: filter_empty_conv)
  then show ?thesis
    using remdups_append [of xs "remdups (xs @ ys)"] by (simp add: list_of_set_def)
qed

lemma remdups_append_split:
  "remdups (xs @ ys) = remdups [x \<leftarrow> xs. x \<notin> set ys] @ remdups ys"
  by (induction xs) auto

lemma list_of_set_absorb_right:
  "list_of_set (list_of_set (xs @ ys) @ ys) = list_of_set (xs @ ys)"
proof -
  let ?a = "remdups [x \<leftarrow> xs. x \<notin> set ys]"
  have split: "remdups (xs @ ys) = ?a @ remdups ys" by (rule remdups_append_split)
  have "[x \<leftarrow> ?a @ remdups ys. x \<notin> set ys] = ?a"
    by (simp add: filter_empty_conv filter_id_conv)
  then have "remdups (remdups (xs @ ys) @ ys) = remdups ?a @ remdups ys"
    using remdups_append_split [of "remdups (xs @ ys)" ys] by (simp add: split)
  then show ?thesis by (simp add: list_of_set_def split)
qed

lemma list_of_set_twice: "distinct xs \<Longrightarrow> list_of_set (xs @ xs) = xs"
  using remdups_append [of xs xs] by (simp add: list_of_set_def filter_empty_conv distinct_remdups_id)

lemma same_value_refl: "same_value v v"
proof (cases v)
  case None
  then show ?thesis by simp
next
  case (Some w)
  then show ?thesis by (cases w) auto
qed

lemma same_profile_refl: "same_profile p p"
  by (simp add: same_profile_def list_all_iff same_value_refl)

lemma same_profileI: "(\<And>k. same_value (map_of p k) (map_of q k)) \<Longrightarrow> same_profile p q"
  by (simp add: same_profile_def list_all_iff)

lemma stored_profile_lookup:
  assumes "stored_profile p" and "map_of p k = Some v"
  shows "stored_value v"
proof -
  from assms(2) have "k \<in> fst ` set p" by (auto dest: map_of_SomeD intro: rev_image_eqI)
  with assms show ?thesis by (auto simp: stored_profile_def list_all_iff get_value_def)
qed

lemma stored_profileI:
  assumes "\<And>k v. map_of p k = Some v \<Longrightarrow> stored_value v"
  shows "stored_profile p"
proof -
  have "stored_value (get_value p k)" if "k \<in> fst ` set p" for k
  proof -
    from that obtain v where "map_of p k = Some v"
      by (cases "map_of p k") (auto simp: map_of_eq_None_iff)
    with assms show ?thesis by (simp add: get_value_def)
  qed
  then show ?thesis by (simp add: stored_profile_def list_all_iff)
qed

lemma update_and_save_metadata_error:
  "update_and_save_metadata user_id now schema store new_metadata = Inl e
   \<Longrightarrow> update_and_save_metadata user_id now' schema store new_metadata = Inl e"
  by (auto simp: update_and_save_metadata_def save_metadata_def Let_def split: sum.splits)

lemma list_of_set_idem: "list_of_set (list_of_set ys) = list_of_set ys"
  by (simp add: list_of_set_def)

lemma list_of_set_absorb_self: "list_of_set (list_of_set ys @ ys) = list_of_set ys"
  using list_of_set_absorb_right [of "[]" ys] by simp

lemma persisted_lookup_round:
  assumes stored: "\<And>v. map_of p k = Some v \<Longrightarrow> stored_value v"
    and reserved: "k = ''user_id'' \<or> k = ''timestamp'' \<Longrightarrow> map_of p k = None"
    and compat: "\<And>ys. map_of new_metadata k = Some (MList ys)
        \<Longrightarrow> map_of p k = None \<or> (\<exists>old. map_of p k = Some (MList old))"
    and k: "k \<noteq> ''lead_classification''"
  shows "merged_new_value (map_of new_metadata k) (persisted_lookup p new_metadata tier k)
    = merged_new_value (map_of new_metadata k) (map_of p k)"
proof (cases "map_of new_metadata k")
  case None
  then show ?thesis
    using stored reserved k
    by (cases "map_of p k"; cases "the (map_of p k)")
       (auto simp: persisted_lookup_def persisted_value_def list_of_set_twice)
next
  case (Some w)
  show ?thesis
  proof (cases w)
    case MNone
    then show ?thesis
      using stored reserved k Some
      by (cases "map_of p k"; cases "the (map_of p k)")
         (auto simp: persisted_lookup_def persisted_value_def list_of_set_twice)
  next
    case (MStr s)
    then show ?thesis using Some by simp
  next
    case (MList ys)
    from compat [of ys] Some MList
    consider "map_of p k = None" | old where "map_of p k = Some (MList old)" by auto
    then show ?thesis
    proof cases
      case 1
      then show ?thesis
        using Some MList k
        by (auto simp: persisted_lookup_def persisted_value_def list_of_set_idem
            list_of_set_absorb_self)
    next
      case 2
      then show ?thesis
        using Some MList k reserved
        by (auto simp: persisted_lookup_def persisted_value_def list_of_set_absorb_left
            list_of_set_absorb_right)
    qed
  qed
qed

lemma list_of_set_self_twice: "list_of_set (list_of_set xs @ list_of_set xs) = list_of_set xs"
  by (rule list_of_set_twice) (simp add: list_of_set_def)

lemma persisted_value_idem: "persisted_value (persisted_value v) = persisted_value v"
proof (cases v)
  case None
  then show ?thesis by (simp add: persisted_value_def)
next
  case (Some w)
  then show ?thesis by (cases w) (auto simp: persisted_value_def py_strip_idem)
qed

lemma persisted_lookup_again:
  assumes p1: "map_of p1 k = persisted_lookup p new_metadata tier k"
    and stored: "\<And>v. map_of p k = Some v \<Longrightarrow> stored_value v"
    and reserved: "k = ''user_id'' \<or> k = ''timestamp'' \<Longrightarrow> map_of p k = None"
    and compat: "\<And>ys. map_of new_metadata k = Some (MList ys)
        \<Longrightarrow> map_of p k = None \<or> (\<exists>old. map_of p k = Some (MList old))"
  shows "persisted_lookup p1 new_metadata tier k = persisted_lookup p new_metadata tier k"
proof (cases "k = ''user_id'' \<or> k = ''timestamp''")
  case True
  then show ?thesis by (auto simp: persisted_lookup_def)
next
  case free: False
  show ?thesis
  proof (cases "k = ''lead_classification''")
    case True
    then show ?thesis
      using p1 persisted_value_idem [of "map_of p k"]
      by (auto simp: persisted_lookup_def persisted_value_def py_strip_idem)
  next
    case False
    have kept: "persisted_lookup p new_metadata tier k = map_of p k"
      if "null_or_empty (map_of new_metadata k)"
        and "\<And>ys. map_of new_metadata k \<noteq> Some (MList ys)"
      using that stored free False
      by (cases "map_of new_metadata k" rule: null_or_empty.cases;
          cases "map_of p k"; cases "the (map_of p k)")
         (auto simp: persisted_lookup_def persisted_value_def list_of_set_twice)
    show ?thesis
    proof (cases "map_of new_metadata k")
      case None
      with kept have "map_of p1 k = map_of p k" using p1 by simp
      then show ?thesis by (simp add: persisted_lookup_def)
    next
      case (Some w)
      show ?thesis
      proof (cases w)
        case MNone
        with kept Some have "map_of p1 k = map_of p k" using p1 by simp
        then show ?thesis by (simp add: persisted_lookup_def)
      next
        case (MStr s)
        show ?thesis
        proof (cases "py_strip s = []")
          case True
          with kept Some MStr have "map_of p1 k = map_of p k" using p1 by simp
          then show ?thesis by (simp add: persisted_lookup_def)
        next
          case nonblank: False
          then show ?thesis
            using Some MStr free False by (simp add: persisted_lookup_def)
        qed
      next
        case (MList ys)
        from compat [of ys] Some MList
        consider "map_of p k = None" | old where "map_of p k = Some (MList old)" by auto
        then show ?thesis
        proof cases
          case 1
          then show ?thesis
            using Some MList free False p1
            by (auto simp: persisted_lookup_def persisted_value_def list_of_set_idem
                list_of_set_absorb_self list_of_set_self_twice)
        next
          case 2
          then show ?thesis
            using Some MList free False p1
            by (auto simp: persisted_lookup_def persisted_value_def list_of_set_absorb_left
                list_of_set_absorb_right list_of_set_self_twice)
        qed
      qed
    qed
  qed
qed

text \<open>
  C5 (amended). For a schema that does not declare \<open>lead_classification\<close> among its
  metadata fields and a profile as the table holds it, merging and saving the same
  metadata twice leaves the same profile as doing it once, lists compared as sets. A
  call that raises puts nothing, so the table is the one before the call.
\<close>

theorem merge_idempotent:
  assumes derived: "''lead_classification'' \<notin> fst ` set (metadata_fields schema)"
    and stored: "stored_profile (load_metadata store)"
  shows "same_profile
      (load_metadata
         (store_after user_id now' schema
            (store_after user_id now schema store new_metadata) new_metadata))
      (load_metadata (store_after user_id now schema store new_metadata))"
proof (cases "update_and_save_metadata user_id now schema store new_metadata")
  case (Inl e)
  then have "store_after user_id now schema store new_metadata = store"
    by (simp add: store_after_def)
  moreover have "store_after user_id now' schema store new_metadata = store"
    using update_and_save_metadata_error [OF Inl, of now'] by (simp add: store_after_def)
  ultimately show ?thesis by (simp add: same_profile_refl)
next
  case first: (Inr item1)
  then have s1: "store_after user_id now schema store new_metadata = Some item1"
    by (simp add: store_after_def)
  show ?thesis
  proof (cases "update_and_save_metadata user_id now' schema (Some item1) new_metadata")
    case (Inl e)
    then have "store_after user_id now' schema (Some item1) new_metadata = Some item1"
      by (simp add: store_after_def)
    then show ?thesis unfolding s1 by (simp add: same_profile_refl)
  next
    case second: (Inr item2)
    let ?p = "load_metadata store"
    let ?p1 = "load_metadata (Some item1)"
    let ?p2 = "load_metadata (Some item2)"
    from update_and_save_metadata_lookup [OF first] obtain merged tier where
      m1: "merge_new (dict_items new_metadata) ?p = Inr merged"
      and cl: "classify_lead merged schema = Inr tier"
      and look1: "\<And>k. map_of ?p1 k = persisted_lookup ?p new_metadata tier k"
      by blast
    from update_and_save_metadata_lookup [OF second] obtain merged' tier' where
      m1': "merge_new (dict_items new_metadata) ?p1 = Inr merged'"
      and cl': "classify_lead merged' schema = Inr tier'"
      and look2: "\<And>k. map_of ?p2 k = persisted_lookup ?p1 new_metadata tier' k"
      by blast
    have stored_k: "stored_value v" if "map_of ?p k = Some v" for k v
      using stored_profile_lookup [OF stored that] .
    have reserved_k: "map_of ?p k = None" if "k = ''user_id'' \<or> k = ''timestamp''" for k
      using load_metadata_reserved [OF that] .
    have compat_k: "map_of ?p k = None \<or> (\<exists>old. map_of ?p k = Some (MList old))"
      if "map_of new_metadata k = Some (MList ys)" for k ys
      using merge_new_list_compatible [OF distinct_dict_items m1, of k ys] that
      by (simp add: map_of_dict_items)
    have "map_of merged' k = map_of merged k" if "k \<noteq> ''lead_classification''" for k
    proof -
      have "map_of merged' k = merged_new_value (map_of new_metadata k) (map_of ?p1 k)"
        using merge_new_lookup [OF distinct_dict_items m1', of k]
        by (simp add: map_of_dict_items)
      also have "\<dots> = merged_new_value (map_of new_metadata k) (map_of ?p k)"
        unfolding look1
        by (rule persisted_lookup_round [OF stored_k reserved_k compat_k that])
      also have "\<dots> = map_of merged k"
        using merge_new_lookup [OF distinct_dict_items m1, of k]
        by (simp add: map_of_dict_items)
      finally show ?thesis .
    qed
    then have "classify_lead merged' schema = classify_lead merged schema"
    proof (intro classify_lead_cong)
      fix k
      assume agree: "\<And>k. k \<noteq> ''lead_classification'' \<Longrightarrow> map_of merged' k = map_of merged k"
        and "k \<in> fst ` set (metadata_fields schema)"
      with derived have "k \<noteq> ''lead_classification''" by blast
      then show "map_of merged' k = map_of merged k" by (rule agree)
    qed
    with cl cl' have tier: "tier' = tier" by simp
    have "persisted_lookup ?p1 new_metadata tier k = persisted_lookup ?p new_metadata tier k"
      for k
    proof (rule persisted_lookup_again)
      show "map_of ?p1 k = persisted_lookup ?p new_metadata tier k" by (rule look1)
      show "\<And>v. map_of ?p k = Some v \<Longrightarrow> stored_value v" by (rule stored_k)
      show "k = ''user_id'' \<or> k = ''timestamp'' \<Longrightarrow> map_of ?p k = None"
        by (rule reserved_k)
      show "\<And>ys. map_of new_metadata k = Some (MList ys)
          \<Longrightarrow> map_of ?p k = None \<or> (\<exists>old. map_of ?p k = Some (MList old))"
        by (rule compat_k)
    qed
    then have "map_of ?p2 k = map_of ?p1 k" for k
      by (simp add: look2 tier look1)
    then have "same_profile ?p2 ?p1"
      by (intro same_profileI) (simp add: same_value_refl)
    moreover have "store_after user_id now' schema (Some item1) new_metadata = Some item2"
      using second by (simp add: store_after_def)
    ultimately show ?thesis unfolding s1 by simp
  qed
qed

text \<open>
  The turn of the example above, run twice on the same profile.
\<close>

theorem merge_idempotent_witness:
  "same_profile
     (load_metadata
        (store_after ''u1'' ''t2''
           \<lparr>metadata_fields =
              [(''budget'', \<lparr>ftype = Some ''range_number'', choices = None,
                 weights = Some [(''thresholds'', WSeq [100000, 200000]),
                                 (''scores'', WSeq [1, 2])]\<rparr>),
               (''features'', \<lparr>ftype = Some ''list'', choices = None, weights = None\<rparr>)],
            lead_score_thresholds = None, context_labels = []\<rparr>
           (store_after ''u1'' ''t1''
              \<lparr>metadata_fields =
                 [(''budget'', \<lparr>ftype = Some ''range_number'', choices = None,
                    weights = Some [(''thresholds'', WSeq [100000, 200000]),
                                    (''scores'', WSeq [1, 2])]\<rparr>),
                  (''features'', \<lparr>ftype = Some ''list'', choices = None, weights = None\<rparr>)],
               lead_score_thresholds = None, context_labels = []\<rparr>
              (Some [(''user_id'', S ''u1''), (''timestamp'', S ''t0''),
                     (''features'', SS [''balcony'', ''garden''])])
              [(''session_id'', MNone), (''budget'', MStr ''150,000''),
               (''features'', MList [''garden'', ''garage''])])
           [(''session_id'', MNone), (''budget'', MStr ''150,000''),
            (''features'', MList [''garden'', ''garage''])]))
     (load_metadata
        (store_after ''u1'' ''t1''
           \<lparr>metadata_fields =
              [(''budget'', \<lparr>ftype = Some ''range_number'', choices = None,
                 weights = Some [(''thresholds'', WSeq [100000, 200000]),
                                 (''scores'', WSeq [1, 2])]\<rparr>),
               (''features'', \<lparr>ftype = Some ''list'', choices = None, weights = None\<rparr>)],
            lead_score_thresholds = None, context_labels = []\<rparr>
           (Some [(''user_id'', S ''u1''), (''timestamp'', S ''t0''),
                  (''features'', SS [''balcony'', ''garden''])])
           [(''session_id'', MNone), (''budget'', MStr ''150,000''),
            (''features'', MList [''garden'', ''garage''])]))"
proof -
  let ?schema = "\<lparr>metadata_fields =
      [(''budget'', \<lparr>ftype = Some ''range_number'', choices = None,
         weights = Some [(''thresholds'', WSeq [100000, 200000]),
                         (''scores'', WSeq [1, 2])]\<rparr>),
       (''features'', \<lparr>ftype = Some ''list'', choices = None, weights = None\<rparr>)],
    lead_score_thresholds = None, context_labels = []\<rparr>"
  let ?store = "Some [(''user_id'', S ''u1''), (''timestamp'', S ''t0''),
      (''features'', SS [''balcony'', ''garden''])]"
  have derived: "''lead_classification'' \<notin> fst ` set (metadata_fields ?schema)"
    by code_simp
  have stored: "stored_profile (load_metadata ?store)"
    by code_simp
  show ?thesis
    using merge_idempotent [OF derived stored, where user_id = "''u1''" and now = "''t1''"
        and now' = "''t2''"
        and new_metadata = "[(''session_id'', MNone), (''budget'', MStr ''150,000''),
            (''features'', MList [''garden'', ''garage''])]"] .
qed

text \<open>
  C5 as stated holds for every schema. A schema that declares \<open>lead_classification\<close> as a
  field with weights makes the classifier read the tier that the call before has
  written: on an empty table the first call stores Cold, and the second call, with the
  same metadata, scores the stored Cold with 5 and stores Hot.
\<close>

theorem merge_idempotent_derived_field_counterexample:
  "load_metadata
     (store_after ''u1'' ''t1''
        \<lparr>metadata_fields =
           [(''lead_classification'', \<lparr>ftype = Some ''type'', choices = None,
              weights = Some [(''cold'', WNum 5)]\<rparr>)],
         lead_score_thresholds = None, context_labels = []\<rparr>
        None [(''session_id'', MNone), (''lead_classification'', MNone)])
   = [(''lead_classification'', MStr ''Cold'')]
   \<and> load_metadata
     (store_after ''u1'' ''t2''
        \<lparr>metadata_fields =
           [(''lead_classification'', \<lparr>ftype = Some ''type'', choices = None,
              weights = Some [(''cold'', WNum 5)]\<rparr>)],
         lead_score_thresholds = None, context_labels = []\<rparr>
        (store_after ''u1'' ''t1''
           \<lparr>metadata_fields =
              [(''lead_classification'', \<lparr>ftype = Some ''type'', choices = None,
                 weights = Some [(''cold'', WNum 5)]\<rparr>)],
            lead_score_thresholds = None, context_labels = []\<rparr>
           None [(''session_id'', MNone), (''lead_classification'', MNone)])
        [(''session_id'', MNone), (''lead_classification'', MNone)])
   = [(''lead_classification'', MStr ''Hot'')]
   \<and> \<not> same_profile [(''lead_classification'', MStr ''Hot'')]
         [(''lead_classification'', MStr ''Cold'')]"
  by code_simp

text \<open>
  The hypothesis on the profile is an invariant of the table: it holds before the first
  put, and a successful call keeps it.
\<close>

lemma stored_profile_empty: "stored_profile (load_metadata None)"
  by (simp add: load_metadata_def stored_profile_def)

lemma list_of_set_distinct: "distinct (list_of_set xs)"
  by (simp add: list_of_set_def)

lemma persisted_lookup_stored:
  assumes stored: "\<And>w. map_of p k = Some w \<Longrightarrow> stored_value w"
    and look: "persisted_lookup p new_metadata tier k = Some v"
  shows "stored_value v"
proof -
  let ?incoming = "if k = ''lead_classification'' then Some (MStr tier)
     else merged_new_value (map_of new_metadata k) (map_of p k)"
  from look have free: "\<not> (k = ''user_id'' \<or> k = ''timestamp'')"
    and v: "persisted_value (merged_existing_value ?incoming (map_of p k) (map_of p k)) = Some v"
    by (auto simp: persisted_lookup_def split: if_splits)
  show ?thesis
  proof (cases "\<exists>xs. ?incoming = Some (MList xs)")
    case True
    then obtain xs where "?incoming = Some (MList xs)" by blast
    with v show ?thesis
      by (auto simp: persisted_value_def list_of_set_distinct split: if_splits)
  next
    case False
    then have "merged_existing_value ?incoming (map_of p k) (map_of p k) = map_of p k
        \<or> (\<exists>s. py_strip s \<noteq> []
             \<and> merged_existing_value ?incoming (map_of p k) (map_of p k) = Some (MStr s))"
      by (cases ?incoming rule: null_or_empty.cases) auto
    then show ?thesis
    proof
      assume "merged_existing_value ?incoming (map_of p k) (map_of p k) = map_of p k"
      with v obtain w where w: "map_of p k = Some w" and "map_option value_of (attribute_of w) = Some v"
        by (auto simp: persisted_value_def split: option.splits)
      with stored [OF w] show ?thesis
        by (cases w) (auto split: if_splits)
    next
      assume "\<exists>s. py_strip s \<noteq> []
          \<and> merged_existing_value ?incoming (map_of p k) (map_of p k) = Some (MStr s)"
      with v show ?thesis by (auto simp: persisted_value_def py_strip_idem)
    qed
  qed
qed

lemma update_and_save_metadata_stored:
  assumes "update_and_save_metadata user_id now schema store new_metadata = Inr item"
    and "stored_profile (load_metadata store)"
  shows "stored_profile (load_metadata (Some item))"
proof (rule stored_profileI)
  fix k v
  assume "map_of (load_metadata (Some item)) k = Some v"
  with update_and_save_metadata_lookup [OF assms(1)] obtain tier where
    "persisted_lookup (load_metadata store) new_metadata tier k = Some v"
    by auto
  then show "stored_value v"
    using stored_profile_lookup [OF assms(2)] by (rule persisted_lookup_stored [rotated])
qed

section \<open>Properties of the context assembly\<close>


lemma build_prompt_or_returns_without_facts:
  "build_prompt_or env current_message history similar_items session_metadata = Inr messages
   \<Longrightarrow> similar_items = []"
  by (auto simp: build_prompt_or_def Let_def split: sum.splits if_splits)




text \<open>
  C1. With a complete profile and a retrieved listing the context should hold a facts
  message. The listing reaches \<open>build_prompt_or\<close>, whose call of
  \<open>format_similar_items_or\<close> lacks the schema argument: the assembly raises TypeError and
  no context is returned.
\<close>

theorem turn_prompt_raises_with_facts:
  "inject_similar_items
     [(''location'', MStr ''Leeds''), (''urgency'', MStr ''high''),
      (''budget'', MStr ''250,000'')]
   \<and> turn_prompt
       \<lparr>system_prompt = ''You are an assistant.'', label_mapping = [(''location'', ''Location'')],
        json_loads = (\<lambda>s. None), strip_session_block = (\<lambda>s. s)\<rparr>
       ''Any flats?'' [] [\<lparr>external_id = ''X1'', address = ''1 Main St''\<rparr>] []
       [(''location'', MStr ''Leeds''), (''urgency'', MStr ''high''),
        (''budget'', MStr ''250,000'')]
     = Inl TypeError"
  by code_simp

end
